theory Spec2Isabelle
  imports Main "HOL-Library.Sublist" "HOL-Library.Multiset" "HOL-Library.Char_ord"
    "HOL-Library.List_Lexorder"
begin

section \<open>Strings\<close>

text \<open>
  A JavaScript string is modelled as a \<^typ>\<open>string\<close>, one \<^typ>\<open>char\<close> per code unit, for
  strings whose code units are below 256. \<open>split_on d s\<close> is \<open>s.split(d)\<close> for a separator
  \<open>d\<close> of one character: it cuts at every occurrence, keeps empty pieces, and always returns
  at least one piece. \<open>split_space s\<close> is \<open>s.split(' ')\<close>.
  \<open>str_includes s p\<close> is \<open>s.includes(p)\<close>.
\<close>

fun split_on :: "char \<Rightarrow> string \<Rightarrow> string list" where
  "split_on d [] = [[]]"
| "split_on d (c # cs) =
     (if c = d then [] # split_on d cs
      else (case split_on d cs of w # ws \<Rightarrow> (c # w) # ws | [] \<Rightarrow> [[c]]))"

abbreviation split_space :: "string \<Rightarrow> string list" where
  "split_space \<equiv> split_on (CHR '' '')"

fun str_includes :: "string \<Rightarrow> string \<Rightarrow> bool" where
  "str_includes [] p = (p = [])"
| "str_includes (c # cs) p = (prefix p (c # cs) \<or> str_includes cs p)"

text \<open>
  \<open>index_opt xs i\<close> is the array read \<open>xs[i]\<close>: \<open>None\<close> stands for \<open>undefined\<close>, the value
  of a read out of range. \<open>every_indexed f xs\<close> is \<open>xs.every((x, index) => f(x, index))\<close>.
\<close>

definition index_opt :: "'a list \<Rightarrow> nat \<Rightarrow> 'a option" where
  "index_opt xs i = (if i < length xs then Some (xs ! i) else None)"

definition every_indexed :: "('a \<Rightarrow> nat \<Rightarrow> bool) \<Rightarrow> 'a list \<Rightarrow> bool" where
  "every_indexed f xs = list_all (\<lambda>(i, x). f x i) (enumerate 0 xs)"

section \<open>The command allow-list (commandService.ts)\<close>

record CommandPattern =
  command :: string
  args :: "string list"
  wildcard :: bool

record CommandPatternConfig =
  pattern :: string
  description :: string

text \<open>\<open>allowedCommands\<close> is optional in the configuration: \<open>None\<close> is \<open>undefined\<close>.\<close>

record CommandConfig =
  allowedCommands :: "CommandPatternConfig list option"
  shell :: string

text \<open>
  \<open>parseCommandPattern\<close>: \<open>parts[0]\<close> is the command, \<open>parts.slice(1)\<close> the arguments, and
  the wildcard flag is set when any part, the command included, is the token \<open>*\<close>.
\<close>

definition parseCommandPattern :: "string \<Rightarrow> CommandPattern" where
  "parseCommandPattern commandStr =
     (let parts = split_space commandStr;
          hasWildcard = list_ex (\<lambda>part. part = ''*'') parts
      in \<lparr>command = hd parts, args = tl parts, wildcard = hasWildcard\<rparr>)"

text \<open>
  \<open>patternAllows executeParts allowedParts\<close> is the body of the callback that
  \<open>isCommandAllowed\<close> hands to \<open>allowedCommands.some\<close>, with its four returns in order.
\<close>

definition patternAllows :: "CommandPattern \<Rightarrow> CommandPattern \<Rightarrow> bool" where
  "patternAllows executeParts allowedParts =
     (if command allowedParts \<noteq> command executeParts then False
      else if wildcard allowedParts then True
      else if length (args allowedParts) \<noteq> length (args executeParts) then False
      else every_indexed
             (\<lambda>arg index. if arg = ''*'' then True
                           else Some arg = index_opt (args executeParts) index)
             (args allowedParts))"

definition isCommandAllowed :: "CommandConfig \<Rightarrow> string \<Rightarrow> bool" where
  "isCommandAllowed cfg commandToExecute =
     (let executeParts = parseCommandPattern commandToExecute;
          allowed = (case allowedCommands cfg of None \<Rightarrow> [] | Some cs \<Rightarrow> cs)
      in list_ex (\<lambda>allowedCmd. patternAllows executeParts (parseCommandPattern (pattern allowedCmd)))
           allowed)"

section \<open>Output classification (commandService.ts)\<close>

definition errorPatterns :: "string list" where
  "errorPatterns =
     [''EADDRINUSE'', ''Error:'', ''error:'', ''ERR!'', ''app crashed'', ''Cannot find module'',
      ''command not found'', ''Failed to compile'', ''Syntax error:'', ''TypeError:'']"

definition checkForErrors :: "string \<Rightarrow> string \<Rightarrow> bool" where
  "checkForErrors stdout stderr =
     (if list_ex (\<lambda>p. str_includes stdout p \<or> str_includes stderr p) errorPatterns then True
      else if str_includes stdout ''app crashed'' \<and> \<not> str_includes stdout ''waiting for file changes''
      then True
      else False)"

text \<open>
  The two probes of \<open>inputDetectionPatterns\<close>. With the flag \<open>m\<close>, \<open>$\<close> matches at the end
  of the text and before a line terminator, and \<open>.\<close> matches any character but a line
  terminator; among the code units below 256 the line terminators are LF and CR.

  \<^item> \<open>/\? .+\?.*$/m\<close> matches at a position when the text there reads \<open>?\<close>, a space, one
    character that is no line terminator, and then has another \<open>?\<close> before the line ends
    (\<open>question_follows\<close>); \<open>.*$\<close> then always succeeds. Group 1 of
    \<open>/\? (.+\?.*$)/m\<close> is the rest of that line from the character after the space, at the
    leftmost match (\<open>inquirer_match\<close>).
  \<^item> \<open>/[^:]+: $/m\<close> matches when some \<open>:\<close> is preceded by a character other than \<open>:\<close> and
    followed by a space that ends its line (\<open>basic_prompt_match\<close>); its extractor returns
    the last piece of \<open>output.split('\n')\<close>.
\<close>

definition is_line_terminator :: "char \<Rightarrow> bool" where
  "is_line_terminator c \<longleftrightarrow> c = CHR 0x0A \<or> c = CHR 0x0D"

fun question_follows :: "string \<Rightarrow> bool" where
  "question_follows [] = False"
| "question_follows (c # cs) = (c = CHR ''?'' \<or> (\<not> is_line_terminator c \<and> question_follows cs))"

fun inquirer_at :: "string \<Rightarrow> bool" where
  "inquirer_at (a # b # e # rest) =
     (a = CHR ''?'' \<and> b = CHR '' '' \<and> \<not> is_line_terminator e \<and> question_follows rest)"
| "inquirer_at _ = False"

fun inquirer_match :: "string \<Rightarrow> string option" where
  "inquirer_match [] = None"
| "inquirer_match (c # cs) =
     (if inquirer_at (c # cs) then Some (takeWhile (\<lambda>x. \<not> is_line_terminator x) (drop 1 cs))
      else inquirer_match cs)"

fun basic_prompt_match :: "string \<Rightarrow> bool" where
  "basic_prompt_match (a # b # c # rest) =
     ((a \<noteq> CHR '':'' \<and> b = CHR '':'' \<and> c = CHR '' ''
        \<and> (case rest of [] \<Rightarrow> True | d # _ \<Rightarrow> is_line_terminator d))
      \<or> basic_prompt_match (b # c # rest))"
| "basic_prompt_match _ = False"

text \<open>
  \<open>isWaitingForInput\<close> returns \<open>{isWaiting: true, prompt}\<close> at the first probe that matches,
  here \<open>Some prompt\<close>, and \<open>{isWaiting: false}\<close> otherwise, here \<open>None\<close>.
\<close>

definition isWaitingForInput :: "string \<Rightarrow> string option" where
  "isWaitingForInput out =
     (case inquirer_match out of
        Some prompt \<Rightarrow> Some prompt
      | None \<Rightarrow> if basic_prompt_match out then Some (last (split_on (CHR 0x0A) out)) else None)"

definition serverReadyPatterns :: "string list" where
  "serverReadyPatterns =
     [''listening'', ''ready'', ''started'', ''running'', ''live'', ''compiled successfully'',
      ''compiled'', ''waiting for file changes'', ''development server running'']"

text \<open>
  \<open>toLowerCase\<close> on code units below 256: the letters A to Z and the capital letters of
  Latin-1 (U+00C0 to U+00DE without the multiplication sign U+00D7) move up by 32.
\<close>

definition lower_char :: "char \<Rightarrow> char" where
  "lower_char c =
     (let n = (of_char c :: nat)
      in if (65 \<le> n \<and> n \<le> 90) \<or> (192 \<le> n \<and> n \<le> 222 \<and> n \<noteq> 215) then char_of (n + 32) else c)"

definition toLowerCase :: "string \<Rightarrow> string" where
  "toLowerCase s = map lower_char s"

definition isServerReady :: "string \<Rightarrow> bool" where
  "isServerReady out =
     list_ex (\<lambda>p. str_includes (toLowerCase out) (toLowerCase p)) serverReadyPatterns"

section \<open>Process sessions (commandService.ts)\<close>

text \<open>
  The handle returned by \<open>spawn\<close>: its \<open>pid\<close> is \<open>undefined\<close> (\<open>None\<close>) when the process could
  not be started, and \<open>spawnargs\<close> are the arguments it was spawned with.
\<close>

record ChildProcess =
  child_pid :: "int option"
  spawnargs :: "string list"

record ProcessOutput =
  stdout :: string
  stderr :: string
  code :: "int option"

record ProcessState =
  isRunning :: bool
  hasError :: bool
  proc_output :: ProcessOutput
  process :: "ChildProcess option"

record DetachedProcessInfo =
  info_pid :: int
  info_command :: string
  timestamp :: nat

record CommandInput =
  input_command :: string
  cwd :: string

record CommandStdinInput =
  stdin_pid :: int
  stdin :: string

record ProcessInfo =
  proc_pid :: int
  proc_command :: string
  detached :: bool

record CommandExecutionResult =
  res_stdout :: string
  res_stderr :: string
  exitCode :: int
  processInfo :: ProcessInfo
  requiresInput :: "bool option"
  prompt :: "string option"

text \<open>The errors the service rejects or throws with, one constructor per message.\<close>

datatype command_error =
    CommandNotAllowed string
  | PidUndefined
  | ProcessStateNotFound
  | CommandFailed string string
  | CommandFailedStderr string
  | CommandExecutionFailed string
  | ProcessExited "int option" string string
  | CommandFailedToStart string
  | CommandTimedOut
  | TimedOutWaitingForResponse
  | NoRunningProcess int
  | FailedToStopProcess int string

record CommandService =
  config :: CommandConfig
  runningProcesses :: "int \<rightharpoonup> DetachedProcessInfo"
  processStates :: "int \<rightharpoonup> ProcessState"

text \<open>
  The variables one call of \<open>executeCommand\<close> closes over, with the promise of the call:
  \<open>settled\<close> is \<open>None\<close> while the promise is pending, and a promise settles once (a later
  \<open>resolve\<close> or \<open>reject\<close> does nothing). A call of \<open>sendInput\<close> closes over the same
  variables and over \<open>state\<close>, the session object it read on entry, and it writes to the
  standard input of the process.
\<close>

record Call =
  call_pid :: int
  call_command :: string
  currentOutput :: string
  currentError :: string
  isCompleted :: bool
  settled :: "(command_error + CommandExecutionResult) option"

record InputCall = Call +
  snapshot :: ProcessState
  written :: string

definition settle ::
  "command_error + CommandExecutionResult \<Rightarrow> 'a Call_scheme \<Rightarrow> 'a Call_scheme" where
  "settle r c = (if settled c = None then c\<lparr>settled := Some r\<rparr> else c)"

definition initializeProcessState :: "int \<Rightarrow> CommandService \<Rightarrow> CommandService" where
  "initializeProcessState p svc =
     svc\<lparr>processStates := (processStates svc)(p \<mapsto>
       \<lparr>isRunning = True, hasError = False,
        proc_output = \<lparr>stdout = [], stderr = [], code = None\<rparr>, process = None\<rparr>)\<rparr>"

text \<open>
  \<open>updateProcessState pid updates\<close>: the partial object \<open>updates\<close> is the function that
  overwrites the fields it names; nothing happens when the pid has no state.
\<close>

definition updateProcessState ::
  "int \<Rightarrow> (ProcessState \<Rightarrow> ProcessState) \<Rightarrow> CommandService \<Rightarrow> CommandService" where
  "updateProcessState p updates svc =
     (case processStates svc p of
        Some currentState \<Rightarrow> svc\<lparr>processStates := (processStates svc)(p \<mapsto> updates currentState)\<rparr>
      | None \<Rightarrow> svc)"

definition cleanup :: "int \<Rightarrow> CommandService \<Rightarrow> CommandService" where
  "cleanup p svc =
     svc\<lparr>runningProcesses := (runningProcesses svc)(p := None),
         processStates := (processStates svc)(p := None)\<rparr>"

definition result_of :: "'a Call_scheme \<Rightarrow> int \<Rightarrow> bool option \<Rightarrow> string option \<Rightarrow> CommandExecutionResult" where
  "result_of c ec ri pr =
     \<lparr>res_stdout = currentOutput c, res_stderr = currentError c, exitCode = ec,
      processInfo = \<lparr>proc_pid = call_pid c, proc_command = call_command c, detached = True\<rparr>,
      requiresInput = ri, prompt = pr\<rparr>"

definition completeWithError ::
  "command_error \<Rightarrow> CommandService \<times> Call \<Rightarrow> CommandService \<times> Call" where
  "completeWithError e sc =
     (let (svc, c) = sc
      in if \<not> isCompleted c
         then (cleanup (call_pid c) svc, settle (Inl e) (c\<lparr>isCompleted := True\<rparr>))
         else (svc, c))"

text \<open>
  \<open>completeWithSuccess\<close> of \<open>executeCommand\<close>. The two early returns, for an output that
  waits for input and for an output of a ready server, resolve the promise and leave
  \<open>isCompleted\<close> false and the session in both tables.
\<close>

definition completeWithSuccess :: "CommandService \<times> Call \<Rightarrow> CommandService \<times> Call" where
  "completeWithSuccess sc =
     (let (svc, c) = sc
      in if \<not> isCompleted c
         then (case processStates svc (call_pid c) of
                 None \<Rightarrow> (svc, settle (Inl ProcessStateNotFound) c)
               | Some state \<Rightarrow>
                   (case isWaitingForInput (currentOutput c) of
                      Some pr \<Rightarrow> (svc, settle (Inr (result_of c 0 (Some True) (Some pr))) c)
                    | None \<Rightarrow>
                        if isServerReady (currentOutput c)
                        then (svc, settle (Inr (result_of c 0 None None)) c)
                        else (cleanup (call_pid c) svc,
                              settle (Inr (result_of c
                                            (case code (proc_output state) of Some n \<Rightarrow> n | None \<Rightarrow> 0)
                                            None None))
                                (c\<lparr>isCompleted := True\<rparr>))))
         else (svc, c))"

text \<open>
  What the operating system and the child process do is the input of the model: the pid
  that \<open>spawn\<close> assigns (or none), the time, and the events of the process. \<open>code\<close> in an
  exit event is \<open>null\<close> (\<open>None\<close>) when a signal ended the process; the message of an error
  event is \<open>None\<close> when the value emitted is no \<open>Error\<close>.
\<close>

datatype proc_event =
    StdoutData string
  | StderrData string
  | ErrorEvent "string option"
  | ExitEvent "int option"
  | TimeoutEvent

text \<open>
  \<open>executeCommand\<close> up to the point where its listeners are installed. \<open>Inl\<close> is a promise
  rejected at once; \<open>Inr\<close> is the service with the new session and the pending call.
\<close>

definition executeCommand ::
  "CommandService \<Rightarrow> CommandInput \<Rightarrow> int option \<Rightarrow> nat \<Rightarrow> command_error + CommandService \<times> Call" where
  "executeCommand svc input spawned_pid now =
     (if \<not> isCommandAllowed (config svc) (input_command input)
      then Inl (CommandNotAllowed (input_command input))
      else
        (let proc = \<lparr>child_pid = spawned_pid,
                     spawnargs = [shell (config svc), ''-ic'', input_command input]\<rparr>
         in case child_pid proc of
              None \<Rightarrow> Inl PidUndefined
            | Some p \<Rightarrow>
                (let svc1 = initializeProcessState p svc;
                     svc2 = svc1\<lparr>runningProcesses := (runningProcesses svc1)(p \<mapsto>
                              \<lparr>info_pid = p, info_command = input_command input, timestamp = now\<rparr>)\<rparr>;
                     svc3 = updateProcessState p (\<lambda>cur. cur\<lparr>process := Some proc\<rparr>) svc2
                 in Inr (svc3,
                      \<lparr>call_pid = p, call_command = input_command input, currentOutput = [],
                       currentError = [], isCompleted = False, settled = None\<rparr>))))"

definition executeCommand_onStdout ::
  "string \<Rightarrow> CommandService \<times> Call \<Rightarrow> CommandService \<times> Call" where
  "executeCommand_onStdout chunk sc =
     (let (svc, c0) = sc;
          c = c0\<lparr>currentOutput := currentOutput c0 @ chunk\<rparr>
      in case processStates svc (call_pid c) of
           None \<Rightarrow> (svc, c)
         | Some state \<Rightarrow>
             (let svc1 = updateProcessState (call_pid c)
                           (\<lambda>cur. cur\<lparr>proc_output := (proc_output state)\<lparr>stdout := currentOutput c\<rparr>\<rparr>)
                           svc
              in if checkForErrors chunk []
                 then completeWithError (CommandFailed (currentOutput c) (currentError c))
                        (updateProcessState (call_pid c) (\<lambda>cur. cur\<lparr>hasError := True\<rparr>) svc1, c)
                 else if isWaitingForInput (currentOutput c) \<noteq> None \<or> isServerReady (currentOutput c)
                      then completeWithSuccess (svc1, c)
                      else (svc1, c)))"

definition executeCommand_onStderr ::
  "string \<Rightarrow> CommandService \<times> Call \<Rightarrow> CommandService \<times> Call" where
  "executeCommand_onStderr chunk sc =
     (let (svc, c0) = sc;
          c = c0\<lparr>currentError := currentError c0 @ chunk\<rparr>
      in case processStates svc (call_pid c) of
           None \<Rightarrow> (svc, c)
         | Some state \<Rightarrow>
             (let svc1 = updateProcessState (call_pid c)
                           (\<lambda>cur. cur\<lparr>proc_output := (proc_output state)\<lparr>stderr := currentError c\<rparr>\<rparr>)
                           svc
              in if checkForErrors [] chunk
                 then completeWithError (CommandFailed (currentOutput c) (currentError c))
                        (updateProcessState (call_pid c) (\<lambda>cur. cur\<lparr>hasError := True\<rparr>) svc1, c)
                 else (svc1, c)))"

definition error_message :: "string option \<Rightarrow> string" where
  "error_message e = (case e of Some m \<Rightarrow> m | None \<Rightarrow> ''Unknown error'')"

definition executeCommand_onError ::
  "string option \<Rightarrow> CommandService \<times> Call \<Rightarrow> CommandService \<times> Call" where
  "executeCommand_onError e sc = completeWithError (CommandExecutionFailed (error_message e)) sc"

definition executeCommand_onExit ::
  "int option \<Rightarrow> CommandService \<times> Call \<Rightarrow> CommandService \<times> Call" where
  "executeCommand_onExit ec sc =
     (let (svc, c) = sc
      in case processStates svc (call_pid c) of
           None \<Rightarrow> (svc, c)
         | Some state \<Rightarrow>
             (let svc1 = updateProcessState (call_pid c)
                           (\<lambda>cur. cur\<lparr>isRunning := False,
                                      proc_output := (proc_output state)
                                        \<lparr>code := Some (case ec of Some n \<Rightarrow> n | None \<Rightarrow> 0)\<rparr>\<rparr>)
                           svc
              in if \<not> checkForErrors (currentOutput c) (currentError c) \<and> ec = Some 0
                 then completeWithSuccess (svc1, c)
                 else if \<not> isCompleted c
                      then completeWithError (ProcessExited ec (currentOutput c) (currentError c))
                             (svc1, c)
                      else (svc1, c)))"

definition executeCommand_onTimeout :: "CommandService \<times> Call \<Rightarrow> CommandService \<times> Call" where
  "executeCommand_onTimeout sc =
     (let (svc, c) = sc
      in if \<not> isCompleted c
         then (case processStates svc (call_pid c) of
                 None \<Rightarrow> (svc, c)
               | Some state \<Rightarrow>
                   if hasError state
                   then completeWithError (CommandFailedToStart (currentError c)) (svc, c)
                   else if isServerReady (currentOutput c)
                           \<or> str_includes (currentOutput c) ''waiting for file changes''
                        then completeWithSuccess (svc, c)
                        else completeWithError CommandTimedOut (svc, c))
         else (svc, c))"

fun executeCommand_event :: "CommandService \<times> Call \<Rightarrow> proc_event \<Rightarrow> CommandService \<times> Call" where
  "executeCommand_event sc (StdoutData chunk) = executeCommand_onStdout chunk sc"
| "executeCommand_event sc (StderrData chunk) = executeCommand_onStderr chunk sc"
| "executeCommand_event sc (ErrorEvent e) = executeCommand_onError e sc"
| "executeCommand_event sc (ExitEvent ec) = executeCommand_onExit ec sc"
| "executeCommand_event sc TimeoutEvent = executeCommand_onTimeout sc"

definition executeCommand_events ::
  "proc_event list \<Rightarrow> CommandService \<times> Call \<Rightarrow> CommandService \<times> Call" where
  "executeCommand_events evs sc = foldl executeCommand_event sc evs"

text \<open>
  \<open>sendInput\<close>: the test on entry throws when the pid has no session or the session has no
  process handle; \<open>isRunning\<close> is not read. Otherwise the listeners of the earlier call are
  replaced by the ones below and the input is written, followed by a newline.
  \<open>join_space xs\<close> is \<open>xs.join(' ')\<close>.
\<close>

fun join_space :: "string list \<Rightarrow> string" where
  "join_space [] = []"
| "join_space [x] = x"
| "join_space (x # y # ys) = x @ '' '' @ join_space (y # ys)"

definition sendInput :: "CommandService \<Rightarrow> CommandStdinInput \<Rightarrow> command_error + InputCall" where
  "sendInput svc input =
     (case processStates svc (stdin_pid input) of
        None \<Rightarrow> Inl (NoRunningProcess (stdin_pid input))
      | Some state \<Rightarrow>
          (case process state of
             None \<Rightarrow> Inl (NoRunningProcess (stdin_pid input))
           | Some proc \<Rightarrow>
               Inr \<lparr>call_pid = stdin_pid input, call_command = join_space (spawnargs proc),
                    currentOutput = stdout (proc_output state),
                    currentError = stderr (proc_output state),
                    isCompleted = False, settled = None,
                    snapshot = state, written = stdin input @ [CHR 0x0A]\<rparr>))"

definition sendInput_completeWithError ::
  "command_error \<Rightarrow> CommandService \<times> InputCall \<Rightarrow> CommandService \<times> InputCall" where
  "sendInput_completeWithError e sc =
     (let (svc, c) = sc
      in if \<not> isCompleted c then (svc, settle (Inl e) (c\<lparr>isCompleted := True\<rparr>)) else (svc, c))"

definition sendInput_completeWithSuccess ::
  "CommandService \<times> InputCall \<Rightarrow> CommandService \<times> InputCall" where
  "sendInput_completeWithSuccess sc =
     (let (svc, c) = sc
      in if \<not> isCompleted c
         then (let c1 = c\<lparr>isCompleted := True\<rparr>;
                   w = isWaitingForInput (currentOutput c1)
               in (svc, settle (Inr (result_of c1 0 (Some (w \<noteq> None)) w)) c1))
         else (svc, c))"

definition sendInput_onStdout ::
  "string \<Rightarrow> CommandService \<times> InputCall \<Rightarrow> CommandService \<times> InputCall" where
  "sendInput_onStdout chunk sc =
     (let (svc, c0) = sc;
          c = c0\<lparr>currentOutput := currentOutput c0 @ chunk\<rparr>;
          svc1 = updateProcessState (call_pid c)
                   (\<lambda>cur. cur\<lparr>proc_output := (proc_output (snapshot c))\<lparr>stdout := currentOutput c\<rparr>\<rparr>)
                   svc
      in if checkForErrors chunk []
         then sendInput_completeWithError (CommandFailed (currentOutput c) (currentError c))
                (updateProcessState (call_pid c) (\<lambda>cur. cur\<lparr>hasError := True\<rparr>) svc1, c)
         else if isWaitingForInput (currentOutput c) \<noteq> None \<or> isServerReady (currentOutput c)
              then sendInput_completeWithSuccess (svc1, c)
              else (svc1, c))"

definition sendInput_onStderr ::
  "string \<Rightarrow> CommandService \<times> InputCall \<Rightarrow> CommandService \<times> InputCall" where
  "sendInput_onStderr chunk sc =
     (let (svc, c0) = sc;
          c = c0\<lparr>currentError := currentError c0 @ chunk\<rparr>;
          svc1 = updateProcessState (call_pid c)
                   (\<lambda>cur. cur\<lparr>proc_output := (proc_output (snapshot c))\<lparr>stderr := currentError c\<rparr>\<rparr>)
                   svc
      in if checkForErrors [] chunk
         then sendInput_completeWithError (CommandFailed (currentOutput c) (currentError c))
                (updateProcessState (call_pid c) (\<lambda>cur. cur\<lparr>hasError := True\<rparr>) svc1, c)
         else (svc1, c))"

definition sendInput_onError ::
  "string option \<Rightarrow> CommandService \<times> InputCall \<Rightarrow> CommandService \<times> InputCall" where
  "sendInput_onError e sc =
     sendInput_completeWithError (CommandExecutionFailed (error_message e)) sc"

text \<open>The exit listener of \<open>sendInput\<close> ends by removing the session from both tables.\<close>

definition sendInput_onExit ::
  "int option \<Rightarrow> CommandService \<times> InputCall \<Rightarrow> CommandService \<times> InputCall" where
  "sendInput_onExit ec sc =
     (let (svc, c) = sc;
          svc1 = updateProcessState (call_pid c)
                   (\<lambda>cur. cur\<lparr>isRunning := False,
                              proc_output := (proc_output (snapshot c))
                                \<lparr>code := Some (case ec of Some n \<Rightarrow> n | None \<Rightarrow> 0)\<rparr>\<rparr>)
                   svc;
          (svc2, c2) =
            (if \<not> checkForErrors (currentOutput c) (currentError c) \<and> ec = Some 0
             then sendInput_completeWithSuccess (svc1, c)
             else if \<not> isCompleted c
                  then sendInput_completeWithError
                         (ProcessExited ec (currentOutput c) (currentError c)) (svc1, c)
                  else (svc1, c))
      in (cleanup (call_pid c) svc2, c2))"

definition sendInput_onTimeout :: "CommandService \<times> InputCall \<Rightarrow> CommandService \<times> InputCall" where
  "sendInput_onTimeout sc =
     (let (svc, c) = sc
      in if \<not> isCompleted c
         then (case processStates svc (call_pid c) of
                 None \<Rightarrow> (svc, c)
               | Some currentState \<Rightarrow>
                   if hasError currentState
                   then sendInput_completeWithError (CommandFailedStderr (currentError c)) (svc, c)
                   else if isServerReady (currentOutput c)
                           \<or> str_includes (currentOutput c) ''waiting for file changes''
                        then sendInput_completeWithSuccess (svc, c)
                        else sendInput_completeWithError TimedOutWaitingForResponse (svc, c))
         else (svc, c))"

fun sendInput_event ::
  "CommandService \<times> InputCall \<Rightarrow> proc_event \<Rightarrow> CommandService \<times> InputCall" where
  "sendInput_event sc (StdoutData chunk) = sendInput_onStdout chunk sc"
| "sendInput_event sc (StderrData chunk) = sendInput_onStderr chunk sc"
| "sendInput_event sc (ErrorEvent e) = sendInput_onError e sc"
| "sendInput_event sc (ExitEvent ec) = sendInput_onExit ec sc"
| "sendInput_event sc TimeoutEvent = sendInput_onTimeout sc"

text \<open>
  \<open>stopProcess\<close>. \<open>process.kill\<close> is the operating system's: \<open>kill n\<close> tells whether the
  call with argument \<open>n\<close> returns or throws, and with which message when the value thrown is
  an \<open>Error\<close>. The result carries the outcome of the promise, the service afterwards, and the
  arguments \<open>process.kill\<close> was called with.
\<close>

datatype kill_outcome = Killed | KillThrows "string option"

definition stopProcess ::
  "(int \<Rightarrow> kill_outcome) \<Rightarrow> CommandService \<Rightarrow> int
     \<Rightarrow> (command_error + unit) \<times> CommandService \<times> int list" where
  "stopProcess kill svc p =
     (case runningProcesses svc p of
        None \<Rightarrow> (Inr (), svc, [])
      | Some info \<Rightarrow>
          (case kill (- p) of
             Killed \<Rightarrow> (Inr (), cleanup p svc, [- p])
           | KillThrows e \<Rightarrow> (Inl (FailedToStopProcess p (error_message e)), svc, [- p])))"

section \<open>The tool-server registry (preload/mcp/index.ts)\<close>

subsection \<open>JSON text\<close>

text \<open>
  \<open>JSON.stringify\<close> on strings, arrays and objects, as far as the configuration hash needs
  it: a string is quoted, with the quote, the backslash and the control characters escaped
  (\<open>\b \f \n \r \t\<close>, the others as \<open>\u00XX\<close> in lower-case hexadecimal); the items of an
  array and the properties of an object are separated by commas with no white space.
\<close>

definition hex_digit :: "nat \<Rightarrow> char" where
  "hex_digit n = ''0123456789abcdef'' ! (n mod 16)"

definition json_escape :: "char \<Rightarrow> string" where
  "json_escape c =
     (if c = CHR 0x22 then [CHR 0x5C, CHR 0x22]
      else if c = CHR 0x5C then [CHR 0x5C, CHR 0x5C]
      else if c = CHR 0x08 then [CHR 0x5C, CHR ''b'']
      else if c = CHR 0x0C then [CHR 0x5C, CHR ''f'']
      else if c = CHR 0x0A then [CHR 0x5C, CHR ''n'']
      else if c = CHR 0x0D then [CHR 0x5C, CHR ''r'']
      else if c = CHR 0x09 then [CHR 0x5C, CHR ''t'']
      else if (of_char c :: nat) < 32
      then [CHR 0x5C, CHR ''u'', CHR ''0'', CHR ''0'',
            hex_digit ((of_char c :: nat) div 16), hex_digit (of_char c)]
      else [c])"

definition json_string :: "string \<Rightarrow> string" where
  "json_string s = [CHR 0x22] @ concat (map json_escape s) @ [CHR 0x22]"

fun join_comma :: "string list \<Rightarrow> string" where
  "join_comma [] = []"
| "join_comma [x] = x"
| "join_comma (x # y # ys) = x @ '','' @ join_comma (y # ys)"

definition json_array :: "string list \<Rightarrow> string" where
  "json_array items = ''['' @ join_comma items @ '']''"

definition json_object :: "(string \<times> string) list \<Rightarrow> string" where
  "json_object props = ''{'' @ join_comma (map (\<lambda>(k, v). json_string k @ '':'' @ v) props) @ ''}''"

subsection \<open>Sorting with a comparator\<close>

text \<open>
  \<open>xs.sort(cmp)\<close> is stable, and for a comparator that is a total preorder its result is the
  stable sorted rearrangement of \<open>xs\<close>, which insertion from the right computes. (For
  another comparator ECMAScript leaves the order to the implementation.)
\<close>

fun insort_by :: "('a \<Rightarrow> 'a \<Rightarrow> int) \<Rightarrow> 'a \<Rightarrow> 'a list \<Rightarrow> 'a list" where
  "insort_by cmp x [] = [x]"
| "insort_by cmp x (y # ys) = (if cmp x y \<le> 0 then x # y # ys else y # insort_by cmp x ys)"

definition sort_by :: "('a \<Rightarrow> 'a \<Rightarrow> int) \<Rightarrow> 'a list \<Rightarrow> 'a list" where
  "sort_by cmp xs = foldr (insort_by cmp) xs []"

subsection \<open>Objects in memory\<close>

text \<open>
  Tool descriptors are JavaScript objects, and the claims about them depend on which objects
  are shared. An object or array is a cell of the store, addressed by its index; a value is
  a primitive or a reference to a cell. Numbers are the integers. The properties of an
  object are listed in the order in which JavaScript enumerates them.
\<close>

datatype jsval = JUndefined | JNull | JBool bool | JNum int | JStr string | JRef nat

datatype jsobj = JObject "(string \<times> jsval) list" | JArray "jsval list"

datatype json = JsNull | JsBool bool | JsNum int | JsStr string | JsArr "json list"
  | JsObj "(string \<times> json) list"

subsection \<open>Configuration and registry state\<close>

text \<open>
  \<open>McpServerConfig\<close>. The interface declares \<open>command\<close> and \<open>args\<close> as required, but the
  entries come from stored agent settings and are checked at run time by \<open>configSchema\<close>;
  a field that is missing at run time (\<open>undefined\<close>) is \<open>None\<close>. \<open>env\<close> is optional, and an
  environment is the list of its entries in enumeration order.
\<close>

record McpServerConfig =
  srv_name :: string
  srv_description :: string
  srv_command :: "string option"
  srv_args :: "string list option"
  srv_env :: "(string \<times> string) list option"

datatype mcp_error = InvalidConfiguration | TypeError | SyntaxError | Unsupported

text \<open>A client of one tool server; \<open>tools\<close> holds its tool descriptors.\<close>

record MCPClient =
  client_id :: nat
  tools :: "jsval list"

text \<open>
  What the module takes from outside: the collation of \<open>String.prototype.localeCompare\<close>,
  which depends on the locale of the host; \<open>MCPClient.fromCommand\<close>, which starts a server
  and either fails (\<open>None\<close>) or returns a client, having created the client's tool descriptors
  in the store; and \<open>callTool\<close> of a client, which returns a result or throws (\<open>Inl\<close>, with
  the message of the error or the string of the value thrown).
\<close>

record Host =
  localeCompare :: "string \<Rightarrow> string \<Rightarrow> int"
  fromCommand :: "string option \<Rightarrow> string list option \<Rightarrow> (string \<times> string) list option
                    \<Rightarrow> jsobj list \<Rightarrow> (MCPClient \<times> jsobj list) option"
  callTool :: "MCPClient \<Rightarrow> string \<Rightarrow> jsval \<Rightarrow> string + jsval"

text \<open>
  The variables of the module. \<open>initializationInProgress\<close> is left out: the model covers calls
  that do not overlap, and between two such calls the variable is \<open>null\<close>, since the
  \<open>finally\<close> block resets it.
\<close>

record Registry =
  clients :: "(string \<times> MCPClient) list"
  lastMcpServerConfigHash :: "string option"
  lastMcpServerLength :: nat
  lastMcpServerNames :: "string list"
  heap :: "jsobj list"

fun sequence_sum :: "('e + 'a) list \<Rightarrow> 'e + 'a list" where
  "sequence_sum [] = Inr []"
| "sequence_sum (x # xs) =
     (case x of
        Inl e \<Rightarrow> Inl e
      | Inr v \<Rightarrow> (case sequence_sum xs of Inl e \<Rightarrow> Inl e | Inr vs \<Rightarrow> Inr (v # vs)))"

text \<open>
  One element of \<open>essentialConfigs\<close>, as JSON text. Spreading \<open>server.args\<close> throws a
  \<open>TypeError\<close> when \<open>args\<close> is undefined; \<open>JSON.stringify\<close> omits a property whose value is
  undefined; \<open>env\<close> is included when it exists and has a key.
\<close>

definition essentialConfig :: "McpServerConfig \<Rightarrow> mcp_error + string" where
  "essentialConfig server =
     (case srv_args server of
        None \<Rightarrow> Inl TypeError
      | Some as \<Rightarrow>
          Inr (json_object
                 ([(''name'', json_string (srv_name server))]
                  @ (case srv_command server of None \<Rightarrow> [] | Some c \<Rightarrow> [(''command'', json_string c)])
                  @ [(''args'', json_array (map json_string as))]
                  @ (case srv_env server of
                       None \<Rightarrow> []
                     | Some [] \<Rightarrow> []
                     | Some (e # es) \<Rightarrow>
                         [(''env'', json_object (map (\<lambda>(k, v). (k, json_string v)) (e # es)))]))))"

definition generateConfigHash :: "Host \<Rightarrow> McpServerConfig list \<Rightarrow> mcp_error + string" where
  "generateConfigHash host servers =
     (if servers = [] then Inr ''empty''
      else
        (let sortedServers = sort_by (\<lambda>a b. localeCompare host (srv_name a) (srv_name b)) servers
         in case sequence_sum (map essentialConfig sortedServers) of
              Inl e \<Rightarrow> Inl e
            | Inr essentialConfigs \<Rightarrow> Inr (json_array essentialConfigs)))"

text \<open>\<open>names.sort()\<close> without a comparator orders strings by their code units.\<close>

definition hasConfigChanged :: "Host \<Rightarrow> Registry \<Rightarrow> McpServerConfig list \<Rightarrow> mcp_error + bool" where
  "hasConfigChanged host st servers =
     (if length servers \<noteq> lastMcpServerLength st then Inr True
      else if length servers = 0 \<and> lastMcpServerLength st = 0 then Inr False
      else
        (let currentNames = sort (map srv_name servers);
             sameNames = (length currentNames = length (lastMcpServerNames st)
                          \<and> every_indexed (\<lambda>name i. Some name = index_opt (lastMcpServerNames st) i)
                                currentNames)
         in if \<not> sameNames then Inr True
            else (case generateConfigHash host servers of
                    Inl e \<Rightarrow> Inl e
                  | Inr configHash \<Rightarrow> Inr (Some configHash \<noteq> lastMcpServerConfigHash st))))"

definition updateConfigCache :: "Host \<Rightarrow> McpServerConfig list \<Rightarrow> Registry \<Rightarrow> mcp_error + Registry" where
  "updateConfigCache host servers st =
     (case generateConfigHash host servers of
        Inl e \<Rightarrow> Inl e
      | Inr h \<Rightarrow>
          Inr (st\<lparr>lastMcpServerConfigHash := Some h,
                  lastMcpServerLength := length servers,
                  lastMcpServerNames := sort (map srv_name servers)\<rparr>))"

text \<open>
  \<open>configData.mcpServers\<close>: the \<open>reduce\<close> starts from \<open>{}\<close> and executes
  \<open>acc[server.name] = {command, args, env}\<close> for each server. For every name but
  \<open>__proto__\<close> the assignment defines an own property of the accumulator or replaces its
  value, so a later entry replaces an earlier one of the same name. \<open>__proto__\<close> is the
  accessor property of \<open>Object.prototype\<close>: the assignment calls its setter, which makes the
  entry the prototype of the accumulator and defines no property.
\<close>

record ServerEntry =
  entry_command :: "string option"
  entry_args :: "string list option"
  entry_env :: "(string \<times> string) list"

record ServerRecord =
  own_properties :: "(string \<times> ServerEntry) list"
  prototype :: "ServerEntry option"

fun assign :: "string \<Rightarrow> 'v \<Rightarrow> (string \<times> 'v) list \<Rightarrow> (string \<times> 'v) list" where
  "assign k v [] = [(k, v)]"
| "assign k v (p # ps) = (if fst p = k then (k, v) # ps else p # assign k v ps)"

definition assign_server :: "string \<Rightarrow> ServerEntry \<Rightarrow> ServerRecord \<Rightarrow> ServerRecord" where
  "assign_server name entry acc =
     (if name = ''__proto__'' then acc\<lparr>prototype := Some entry\<rparr>
      else acc\<lparr>own_properties := assign name entry (own_properties acc)\<rparr>)"

definition configData :: "McpServerConfig list \<Rightarrow> ServerRecord" where
  "configData servers =
     foldl (\<lambda>acc server.
              assign_server (srv_name server)
                \<lparr>entry_command = srv_command server, entry_args = srv_args server,
                 entry_env = (case srv_env server of None \<Rightarrow> [] | Some e \<Rightarrow> e)\<rparr> acc)
       \<lparr>own_properties = [], prototype = None\<rparr> servers"

text \<open>
  \<open>configSchema.safeParse\<close>. The schema of \<open>mcpServers\<close> is a \<open>z.record\<close>, whose parser
  enumerates the keys of the record with \<open>for (const key in data)\<close>, reads \<open>data[key]\<close> and
  parses the value with the schema of an entry. The loop visits the own properties and
  then the enumerable properties of the prototype that no own property shadows; when an
  entry has become the prototype these are its properties \<open>command\<close>, \<open>args\<close> and \<open>env\<close>
  (\<open>Object.prototype\<close> has no enumerable property). The schema of an entry accepts an object
  with a string \<open>command\<close> and an array of strings \<open>args\<close> (\<open>env\<close>, which the \<open>reduce\<close>
  fills with \<open>{}\<close> when absent, is a record of strings by its type here). It rejects the
  inherited values: a command is a string or undefined, the arguments are an array or
  undefined, and an environment is an object whose \<open>args\<close> is a string or undefined.
\<close>

datatype record_value =
  EntryValue ServerEntry
  | CommandValue "string option"
  | ArgsValue "string list option"
  | EnvValue "(string \<times> string) list"

definition inherited_properties :: "ServerEntry \<Rightarrow> (string \<times> record_value) list" where
  "inherited_properties p =
     [(''command'', CommandValue (entry_command p)),
      (''args'', ArgsValue (entry_args p)),
      (''env'', EnvValue (entry_env p))]"

definition for_in :: "ServerRecord \<Rightarrow> (string \<times> record_value) list" where
  "for_in acc =
     map (\<lambda>(k, e). (k, EntryValue e)) (own_properties acc)
     @ (case prototype acc of
          None \<Rightarrow> []
        | Some p \<Rightarrow>
            filter (\<lambda>(k, v). k \<notin> set (map fst (own_properties acc))) (inherited_properties p))"

definition entrySchema :: "record_value \<Rightarrow> bool" where
  "entrySchema v =
     (case v of
        EntryValue e \<Rightarrow> entry_command e \<noteq> None \<and> entry_args e \<noteq> None
      | CommandValue c \<Rightarrow> False
      | ArgsValue a \<Rightarrow> False
      | EnvValue env \<Rightarrow> False)"

definition configSchema_safeParse :: "ServerRecord \<Rightarrow> bool" where
  "configSchema_safeParse mcpServers = list_all (\<lambda>(k, v). entrySchema v) (for_in mcpServers)"

text \<open>
  The servers are started one after the other in the model (the source starts them together
  and awaits them all); a server that fails to start is left out.
\<close>

fun launch_all ::
  "Host \<Rightarrow> McpServerConfig list \<Rightarrow> jsobj list \<Rightarrow> (string \<times> MCPClient) list \<times> jsobj list" where
  "launch_all host [] h = ([], h)"
| "launch_all host (serverConfig # rest) h =
     (case fromCommand host (srv_command serverConfig) (srv_args serverConfig)
             (srv_env serverConfig) h of
        None \<Rightarrow> launch_all host rest h
      | Some (client, h1) \<Rightarrow>
          (let (cs, h2) = launch_all host rest h1 in ((srv_name serverConfig, client) # cs, h2)))"

text \<open>
  The body of the asynchronous function that \<open>initMcpFromAgentConfig\<close> awaits inside its
  \<open>try\<close>. Cleaning up the old clients cannot fail (its errors are caught and logged) and
  does not touch the variables of the module.
\<close>

definition activate :: "Host \<Rightarrow> McpServerConfig list \<Rightarrow> Registry \<Rightarrow> (mcp_error + unit) \<times> Registry" where
  "activate host mcpServers st =
     (let st1 = st\<lparr>clients := []\<rparr>
      in if length mcpServers = 0
         then (case updateConfigCache host mcpServers st1 of
                 Inl e \<Rightarrow> (Inl e, st1)
               | Inr st2 \<Rightarrow> (Inr (), st2))
         else if \<not> configSchema_safeParse (configData mcpServers)
              then (Inl InvalidConfiguration, st1)
              else
                (let (cs, h) = launch_all host mcpServers (heap st1);
                     st2 = st1\<lparr>clients := cs, heap := h\<rparr>
                 in case updateConfigCache host mcpServers st2 of
                      Inl e \<Rightarrow> (Inl e, st2)
                    | Inr st3 \<Rightarrow> (Inr (), st3)))"

text \<open>
  The \<open>catch\<close> block: the three assignments, then \<open>updateConfigCache([])\<close>, which records the
  hash \<open>empty\<close>, the length 0 and no names.
\<close>

definition resetConfigCache :: "Registry \<Rightarrow> Registry" where
  "resetConfigCache st =
     (st\<lparr>lastMcpServerConfigHash := None, lastMcpServerLength := 0, lastMcpServerNames := []\<rparr>)
       \<lparr>lastMcpServerConfigHash := Some ''empty'', lastMcpServerLength := 0,
        lastMcpServerNames := sort (map srv_name ([] :: McpServerConfig list))\<rparr>"

definition initMcpFromAgentConfig ::
  "Host \<Rightarrow> McpServerConfig list \<Rightarrow> Registry \<Rightarrow> (mcp_error + unit) \<times> Registry" where
  "initMcpFromAgentConfig host mcpServers st =
     (case hasConfigChanged host st mcpServers of
        Inl e \<Rightarrow> (Inl e, st)
      | Inr False \<Rightarrow> (Inr (), st)
      | Inr True \<Rightarrow>
          (let (r, st1) = activate host mcpServers st
           in case r of
                Inr u \<Rightarrow> (Inr (), st1)
              | Inl e \<Rightarrow> (Inl e, resetConfigCache st1)))"

subsection \<open>Reading and copying tool descriptors\<close>

text \<open>
  \<open>get_prop h v k\<close> is the property read \<open>v.k\<close> for the two keys the module reads,
  \<open>toolSpec\<close> and \<open>name\<close>: a \<open>TypeError\<close> on \<open>undefined\<close> and \<open>null\<close>, the property or
  \<open>undefined\<close> on an object, \<open>undefined\<close> on an array and on a primitive, none of which has
  a property of these names. \<open>Unsupported\<close> marks what lies outside the model: a reference
  that names no cell, and below a tool name that is neither a string nor absent (the type
  \<open>Tool\<close> declares the name as a string or undefined).
\<close>

definition get_prop :: "jsobj list \<Rightarrow> jsval \<Rightarrow> string \<Rightarrow> mcp_error + jsval" where
  "get_prop h v k =
     (case v of
        JUndefined \<Rightarrow> Inl TypeError
      | JNull \<Rightarrow> Inl TypeError
      | JRef a \<Rightarrow>
          (case index_opt h a of
             None \<Rightarrow> Inl Unsupported
           | Some (JObject ps) \<Rightarrow> Inr (case map_of ps k of Some x \<Rightarrow> x | None \<Rightarrow> JUndefined)
           | Some (JArray xs) \<Rightarrow> Inr JUndefined)
      | _ \<Rightarrow> Inr JUndefined)"

text \<open>\<open>tool_name h tool\<close> is the expression \<open>tool.toolSpec?.name\<close>.\<close>

definition tool_name :: "jsobj list \<Rightarrow> jsval \<Rightarrow> mcp_error + jsval" where
  "tool_name h tool =
     (case get_prop h tool ''toolSpec'' of
        Inl e \<Rightarrow> Inl e
      | Inr ts \<Rightarrow> if ts = JUndefined \<or> ts = JNull then Inr JUndefined else get_prop h ts ''name'')"

text \<open>
  \<open>set_prop h v k x\<close> is the assignment \<open>v.k = x\<close> on an object; in a module, which is
  strict code, the assignment to a property of a primitive throws.
\<close>

definition set_prop :: "jsobj list \<Rightarrow> jsval \<Rightarrow> string \<Rightarrow> jsval \<Rightarrow> mcp_error + jsobj list" where
  "set_prop h v k x =
     (case v of
        JRef a \<Rightarrow>
          (case index_opt h a of
             Some (JObject ps) \<Rightarrow> Inr (h[a := JObject (assign k x ps)])
           | _ \<Rightarrow> Inl Unsupported)
      | _ \<Rightarrow> Inl TypeError)"

text \<open>
  \<open>JSON.stringify\<close> of a value, as the JSON document its text denotes: \<open>Inr None\<close> is the
  result \<open>undefined\<close>; inside an array \<open>undefined\<close> becomes \<open>null\<close>, and a property whose
  value is \<open>undefined\<close> is left out. The first argument bounds the depth of the descent. In
  a store of \<open>n\<close> cells a descent through more than \<open>n\<close> references meets a cell twice, so
  with the bound \<open>length h\<close> the bound is reached exactly on a circular structure, for which
  \<open>JSON.stringify\<close> throws a \<open>TypeError\<close>.
\<close>

fun stringify :: "nat \<Rightarrow> jsobj list \<Rightarrow> jsval \<Rightarrow> mcp_error + json option" where
  "stringify n h JUndefined = Inr None"
| "stringify n h JNull = Inr (Some JsNull)"
| "stringify n h (JBool b) = Inr (Some (JsBool b))"
| "stringify n h (JNum i) = Inr (Some (JsNum i))"
| "stringify n h (JStr s) = Inr (Some (JsStr s))"
| "stringify 0 h (JRef a) = Inl TypeError"
| "stringify (Suc n) h (JRef a) =
     (case index_opt h a of
        None \<Rightarrow> Inl Unsupported
      | Some (JArray xs) \<Rightarrow>
          (case sequence_sum (map (stringify n h) xs) of
             Inl e \<Rightarrow> Inl e
           | Inr rs \<Rightarrow> Inr (Some (JsArr (map (\<lambda>r. case r of None \<Rightarrow> JsNull | Some j \<Rightarrow> j) rs))))
      | Some (JObject ps) \<Rightarrow>
          (case sequence_sum (map (\<lambda>p. stringify n h (snd p)) ps) of
             Inl e \<Rightarrow> Inl e
           | Inr rs \<Rightarrow>
               Inr (Some (JsObj (concat (map (\<lambda>(k, r). case r of None \<Rightarrow> [] | Some j \<Rightarrow> [(k, j)])
                                          (zip (map fst ps) rs)))))))"

definition JSON_stringify :: "jsobj list \<Rightarrow> jsval \<Rightarrow> mcp_error + json option" where
  "JSON_stringify h v = stringify (length h) h v"

text \<open>
  \<open>JSON.parse\<close> creates one new object for every object and array of the document.
  \<open>build d base\<close> gives the value and the new cells when the first free address is \<open>base\<close>;
  the parts of an array or object are created before the array or object itself.
\<close>

fun build :: "json \<Rightarrow> nat \<Rightarrow> jsval \<times> jsobj list"
  and build_list :: "json list \<Rightarrow> nat \<Rightarrow> jsval list \<times> jsobj list"
  and build_props :: "(string \<times> json) list \<Rightarrow> nat \<Rightarrow> (string \<times> jsval) list \<times> jsobj list"
where
  "build JsNull base = (JNull, [])"
| "build (JsBool b) base = (JBool b, [])"
| "build (JsNum i) base = (JNum i, [])"
| "build (JsStr s) base = (JStr s, [])"
| "build (JsArr xs) base =
     (let (vs, cs) = build_list xs base in (JRef (base + length cs), cs @ [JArray vs]))"
| "build (JsObj ps) base =
     (let (vps, cs) = build_props ps base in (JRef (base + length cs), cs @ [JObject vps]))"
| "build_list [] base = ([], [])"
| "build_list (x # xs) base =
     (let (v, cs1) = build x base;
          (vs, cs2) = build_list xs (base + length cs1)
      in (v # vs, cs1 @ cs2))"
| "build_props [] base = ([], [])"
| "build_props (p # ps) base =
     (let (v, cs1) = build (snd p) base;
          (vps, cs2) = build_props ps (base + length cs1)
      in ((fst p, v) # vps, cs1 @ cs2))"

definition JSON_parse :: "json \<Rightarrow> jsobj list \<Rightarrow> jsval \<times> jsobj list" where
  "JSON_parse d h = (let (v, cs) = build d (length h) in (v, h @ cs))"

text \<open>
  The callback of \<open>client.tools.map\<close> in \<open>getMcpToolSpecs\<close>: the copy through
  \<open>JSON.parse(JSON.stringify(tool))\<close> (\<open>JSON.parse\<close> throws a \<open>SyntaxError\<close> when
  \<open>JSON.stringify\<close> returned \<open>undefined\<close>), the test \<open>clonedTool.toolSpec?.name\<close> for a
  truthy name, and the assignment of the prefixed name to the copy.
\<close>

definition cloneTool :: "jsobj list \<Rightarrow> jsval \<Rightarrow> mcp_error + jsval \<times> jsobj list" where
  "cloneTool h tool =
     (case JSON_stringify h tool of
        Inl e \<Rightarrow> Inl e
      | Inr None \<Rightarrow> Inl SyntaxError
      | Inr (Some d) \<Rightarrow>
          (let (clonedTool, h1) = JSON_parse d h
           in case tool_name h1 clonedTool of
                Inl e \<Rightarrow> Inl e
              | Inr JUndefined \<Rightarrow> Inr (clonedTool, h1)
              | Inr JNull \<Rightarrow> Inr (clonedTool, h1)
              | Inr (JStr s) \<Rightarrow>
                  if s \<noteq> []
                  then (case get_prop h1 clonedTool ''toolSpec'' of
                          Inl e \<Rightarrow> Inl e
                        | Inr ts \<Rightarrow>
                            (case set_prop h1 ts ''name'' (JStr (''mcp_'' @ s)) of
                               Inl e \<Rightarrow> Inl e
                             | Inr h2 \<Rightarrow> Inr (clonedTool, h2)))
                  else Inr (clonedTool, h1)
              | Inr _ \<Rightarrow> Inl Unsupported))"

fun cloneTools :: "jsobj list \<Rightarrow> jsval list \<Rightarrow> mcp_error + jsval list \<times> jsobj list" where
  "cloneTools h [] = Inr ([], h)"
| "cloneTools h (tool # rest) =
     (case cloneTool h tool of
        Inl e \<Rightarrow> Inl e
      | Inr (v, h1) \<Rightarrow>
          (case cloneTools h1 rest of Inl e \<Rightarrow> Inl e | Inr (vs, h2) \<Rightarrow> Inr (v # vs, h2)))"

text \<open>
  \<open>getMcpToolSpecs\<close>; the argument is optional, \<open>None\<close> is \<open>undefined\<close>. The \<open>flatMap\<close> over
  the clients copies the tools of all clients in order. An exception leaves the registry as
  \<open>initMcpFromAgentConfig\<close> left it.
\<close>

definition all_tools :: "Registry \<Rightarrow> jsval list" where
  "all_tools st = concat (map (\<lambda>c. tools (snd c)) (clients st))"

definition getMcpToolSpecs ::
  "Host \<Rightarrow> McpServerConfig list option \<Rightarrow> Registry \<Rightarrow> (mcp_error + jsval list) \<times> Registry" where
  "getMcpToolSpecs host mcpServers st =
     (case mcpServers of
        None \<Rightarrow> (Inr [], st)
      | Some servers \<Rightarrow>
          if length servers = 0 then (Inr [], st)
          else
            (let (r, st1) = initMcpFromAgentConfig host servers st
             in case r of
                  Inl e \<Rightarrow> (Inl e, st1)
                | Inr u \<Rightarrow>
                    (case cloneTools (heap st1) (all_tools st1) of
                       Inl e \<Rightarrow> (Inl e, st1)
                     | Inr (specs, h) \<Rightarrow> (Inr specs, st1\<lparr>heap := h\<rparr>))))"

subsection \<open>Invoking a tool\<close>






subsection \<open>Well-formed stores, and the copy of a descriptor as a document\<close>

text \<open>
  \<open>val_below n v\<close>: the value \<open>v\<close> is a primitive or refers to a cell below address \<open>n\<close>;
  \<open>val_from n v\<close>: it is a primitive or refers to a cell at \<open>n\<close> or above. A store is closed
  when every reference in it names one of its cells, and the registry is well formed when
  its store is closed and the tool descriptors of its clients are in the store.
\<close>

definition val_below :: "nat \<Rightarrow> jsval \<Rightarrow> bool" where
  "val_below n v = (case v of JRef a \<Rightarrow> a < n | _ \<Rightarrow> True)"

definition val_from :: "nat \<Rightarrow> jsval \<Rightarrow> bool" where
  "val_from n v = (case v of JRef a \<Rightarrow> n \<le> a | _ \<Rightarrow> True)"

definition cell_values :: "jsobj \<Rightarrow> jsval list" where
  "cell_values c = (case c of JObject ps \<Rightarrow> map snd ps | JArray xs \<Rightarrow> xs)"

definition cells_below :: "nat \<Rightarrow> jsobj list \<Rightarrow> bool" where
  "cells_below n cs = list_all (\<lambda>c. list_all (val_below n) (cell_values c)) cs"

definition cells_from :: "nat \<Rightarrow> jsobj list \<Rightarrow> bool" where
  "cells_from n cs = list_all (\<lambda>c. list_all (val_from n) (cell_values c)) cs"

definition heap_closed :: "jsobj list \<Rightarrow> bool" where
  "heap_closed h = cells_below (length h) h"

definition registry_ok :: "Registry \<Rightarrow> bool" where
  "registry_ok st \<longleftrightarrow> heap_closed (heap st) \<and> list_all (val_below (length (heap st))) (all_tools st)"

text \<open>
  What the specification says of \<open>getToolSpecs\<close>, on documents: the descriptor returned is
  the descriptor of the registry with the prefix \<open>mcp_\<close> before its name. \<open>prefixed_document\<close>
  renames a descriptor whose \<open>toolSpec.name\<close> is a non-empty string and leaves every other
  document as it is. \<open>clone_error d\<close> is the exception the callback of \<open>getMcpToolSpecs\<close>
  ends with on a descriptor with the document \<open>d\<close>, if any: a \<open>TypeError\<close> for the document
  \<open>null\<close>, and the mark \<open>Unsupported\<close> for a name that is neither a string nor absent.
\<close>

definition prefixed_document :: "json \<Rightarrow> json" where
  "prefixed_document d =
     (case d of
        JsObj ps \<Rightarrow>
          (case map_of ps ''toolSpec'' of
             Some (JsObj qs) \<Rightarrow>
               (case map_of qs ''name'' of
                  Some (JsStr s) \<Rightarrow>
                    if s \<noteq> []
                    then JsObj (assign ''toolSpec''
                                 (JsObj (assign ''name'' (JsStr (''mcp_'' @ s)) qs)) ps)
                    else d
                | _ \<Rightarrow> d)
           | _ \<Rightarrow> d)
      | _ \<Rightarrow> d)"

definition clone_error :: "json \<Rightarrow> mcp_error option" where
  "clone_error d =
     (case d of
        JsNull \<Rightarrow> Some TypeError
      | JsObj ps \<Rightarrow>
          (case map_of ps ''toolSpec'' of
             Some (JsObj qs) \<Rightarrow>
               (case map_of qs ''name'' of
                  None \<Rightarrow> None
                | Some JsNull \<Rightarrow> None
                | Some (JsStr s) \<Rightarrow> None
                | Some _ \<Rightarrow> Some Unsupported)
           | _ \<Rightarrow> None)
      | _ \<Rightarrow> None)"

subsection \<open>The initial state and a host for the examples\<close>

text \<open>
  The module starts with no client and an empty cache. \<open>example_host\<close> is the host of the
  examples below, after the mock of \<open>index.test.ts\<close>: its collation compares code units;
  every server starts and advertises one tool, \<open>mockTool\<close>, whose descriptor it creates in
  the store; calling \<open>mockTool\<close> returns a text, calling another tool throws.
\<close>

definition initial_registry :: Registry where
  "initial_registry =
     \<lparr>clients = [], lastMcpServerConfigHash = None, lastMcpServerLength = 0,
      lastMcpServerNames = [], heap = []\<rparr>"

definition codeUnitCompare :: "string \<Rightarrow> string \<Rightarrow> int" where
  "codeUnitCompare a b = (if a < b then - 1 else if a = b then 0 else 1)"

definition mock_fromCommand ::
  "string option \<Rightarrow> string list option \<Rightarrow> (string \<times> string) list option
     \<Rightarrow> jsobj list \<Rightarrow> (MCPClient \<times> jsobj list) option" where
  "mock_fromCommand c a e h =
     Some (\<lparr>client_id = length h, tools = [JRef (length h + 3)]\<rparr>,
           h @ [JObject [(''type'', JStr ''object'')],
                JObject [(''json'', JRef (length h))],
                JObject [(''name'', JStr ''mockTool''),
                         (''description'', JStr ''A mocked tool for testing''),
                         (''inputSchema'', JRef (length h + 1))],
                JObject [(''toolSpec'', JRef (length h + 2))]])"

definition example_host :: Host where
  "example_host =
     \<lparr>localeCompare = codeUnitCompare,
      fromCommand = mock_fromCommand,
      callTool = (\<lambda>c n i. if n = ''mockTool'' then Inr (JStr ''Mock tool response'')
                            else Inl (''Tool '' @ n @ '' not found''))\<rparr>"






section \<open>Facts about the string helpers\<close>

lemma split_on_nonempty: "split_on d s \<noteq> []"
  by (induction s) (auto split: list.splits)

lemma includes_iff_sublist: "str_includes s p \<longleftrightarrow> sublist p s"
  by (induction s) (auto simp: sublist_Cons_right)

lemma every_indexed_iff:
  "every_indexed f xs \<longleftrightarrow> (\<forall>i < length xs. f (xs ! i) i)"
proof -
  have "every_indexed f xs \<longleftrightarrow> (\<forall>p \<in> set (enumerate 0 xs). f (snd p) (fst p))"
    by (simp add: every_indexed_def list_all_iff case_prod_unfold)
  also have "\<dots> \<longleftrightarrow> (\<forall>i < length xs. f (xs ! i) i)"
  proof
    assume h: "\<forall>p \<in> set (enumerate 0 xs). f (snd p) (fst p)"
    show "\<forall>i < length xs. f (xs ! i) i"
    proof (intro allI impI)
      fix i assume "i < length xs"
      then have "(i, xs ! i) \<in> set (enumerate 0 xs)"
        by (simp add: in_set_enumerate_eq)
      with h show "f (xs ! i) i" by fastforce
    qed
  next
    assume "\<forall>i < length xs. f (xs ! i) i"
    then show "\<forall>p \<in> set (enumerate 0 xs). f (snd p) (fst p)"
      by (auto simp: in_set_enumerate_eq)
  qed
  finally show ?thesis .
qed

lemma parse_wildcard_iff:
  "wildcard (parseCommandPattern p) \<longleftrightarrow> ''*'' \<in> set (split_space p)"
  by (auto simp: parseCommandPattern_def Let_def list_ex_iff)

lemma parse_parts:
  "command (parseCommandPattern p) # args (parseCommandPattern p) = split_space p"
  by (simp add: parseCommandPattern_def Let_def split_on_nonempty)

lemma star_in_args_wildcard:
  "''*'' \<in> set (args (parseCommandPattern p)) \<Longrightarrow> wildcard (parseCommandPattern p)"
  using parse_parts [of p] by (metis list.set_intros(2) parse_wildcard_iff)

lemma isCommandAllowed_iff:
  "isCommandAllowed cfg req \<longleftrightarrow>
     (\<exists>cs. allowedCommands cfg = Some cs \<and>
        (\<exists>c \<in> set cs. patternAllows (parseCommandPattern req) (parseCommandPattern (pattern c))))"
  by (cases "allowedCommands cfg") (simp_all add: isCommandAllowed_def Let_def list_ex_iff)

lemma checkForErrors_iff:
  "checkForErrors out err \<longleftrightarrow> (\<exists>p \<in> set errorPatterns. str_includes out p \<or> str_includes err p)"
proof -
  have "''app crashed'' \<in> set errorPatterns"
    by (simp add: errorPatterns_def)
  then show ?thesis
    unfolding checkForErrors_def list_ex_iff by auto
qed

section \<open>Claims about the allow-list\<close>

text \<open>
  C1. A pattern of the allow-list whose argument tokens contain the token \<open>*\<close> authorizes
  every requested command line whose command token equals the pattern's command token,
  whatever the requested arguments are and however many there are.
\<close>

theorem wildcard_pattern_allows_any_arguments:
  assumes "allowedCommands cfg = Some cs"
    and "allowedCmd \<in> set cs"
    and "''*'' \<in> set (args (parseCommandPattern (pattern allowedCmd)))"
    and "command (parseCommandPattern (pattern allowedCmd)) = command (parseCommandPattern req)"
  shows "isCommandAllowed cfg req"
proof -
  have "wildcard (parseCommandPattern (pattern allowedCmd))"
    using assms(3) by (rule star_in_args_wildcard)
  then have "patternAllows (parseCommandPattern req) (parseCommandPattern (pattern allowedCmd))"
    using assms(4) by (simp add: patternAllows_def)
  then show ?thesis
    using assms(1,2) unfolding isCommandAllowed_iff by blast
qed

theorem wildcard_pattern_allows_any_arguments_witness:
  "allowedCommands \<lparr>allowedCommands = Some [\<lparr>pattern = ''gh pr *'', description = ''github command''\<rparr>],
                     shell = ''/bin/bash''\<rparr>
     = Some [\<lparr>pattern = ''gh pr *'', description = ''github command''\<rparr>]
   \<and> ''*'' \<in> set (args (parseCommandPattern ''gh pr *''))
   \<and> command (parseCommandPattern ''gh pr *'') = command (parseCommandPattern ''gh pr view 42'')
   \<and> isCommandAllowed
       \<lparr>allowedCommands = Some [\<lparr>pattern = ''gh pr *'', description = ''github command''\<rparr>],
        shell = ''/bin/bash''\<rparr> ''gh pr view 42''
   \<and> isCommandAllowed
       \<lparr>allowedCommands = Some [\<lparr>pattern = ''gh pr *'', description = ''github command''\<rparr>],
        shell = ''/bin/bash''\<rparr> ''gh pr diff 42 --repo x/y''
   \<and> isCommandAllowed
       \<lparr>allowedCommands = Some [\<lparr>pattern = ''gh pr *'', description = ''github command''\<rparr>],
        shell = ''/bin/bash''\<rparr> ''gh pr comment 1 -F f.md''"
proof -
  let ?c = "\<lparr>pattern = ''gh pr *'', description = ''github command''\<rparr>"
  let ?cfg = "\<lparr>allowedCommands = Some [?c], shell = ''/bin/bash''\<rparr>"
  have star: "''*'' \<in> set (args (parseCommandPattern (pattern ?c)))"
    by (simp add: parseCommandPattern_def)
  have c1: "command (parseCommandPattern (pattern ?c)) = command (parseCommandPattern ''gh pr view 42'')"
    by (simp add: parseCommandPattern_def)
  have c2: "command (parseCommandPattern (pattern ?c))
              = command (parseCommandPattern ''gh pr diff 42 --repo x/y'')"
    by (simp add: parseCommandPattern_def)
  have c3: "command (parseCommandPattern (pattern ?c))
              = command (parseCommandPattern ''gh pr comment 1 -F f.md'')"
    by (simp add: parseCommandPattern_def)
  have "isCommandAllowed ?cfg ''gh pr view 42''"
    using wildcard_pattern_allows_any_arguments [of ?cfg "[?c]" ?c, OF _ _ star c1] by simp
  moreover have "isCommandAllowed ?cfg ''gh pr diff 42 --repo x/y''"
    using wildcard_pattern_allows_any_arguments [of ?cfg "[?c]" ?c, OF _ _ star c2] by simp
  moreover have "isCommandAllowed ?cfg ''gh pr comment 1 -F f.md''"
    using wildcard_pattern_allows_any_arguments [of ?cfg "[?c]" ?c, OF _ _ star c3] by simp
  ultimately show ?thesis
    using star c1 by simp
qed

text \<open>
  C2, as stated: a pattern with \<open>*\<close> amid other argument tokens matches a requested line only
  when the two argument counts are equal. The code does not behave so: the pattern
  \<open>gh pr *\<close> has two argument tokens and matches \<open>gh pr view 42\<close>, which has three.
\<close>

theorem wildcard_amid_arguments_counterexample:
  "''*'' \<in> set (args (parseCommandPattern ''gh pr *''))
   \<and> args (parseCommandPattern ''gh pr *'') \<noteq> [''*'']
   \<and> patternAllows (parseCommandPattern ''gh pr view 42'') (parseCommandPattern ''gh pr *'')
   \<and> length (args (parseCommandPattern ''gh pr view 42''))
       \<noteq> length (args (parseCommandPattern ''gh pr *''))"
  by (simp add: parseCommandPattern_def patternAllows_def)

text \<open>
  C2, amended: a pattern whose argument tokens contain \<open>*\<close> matches a requested line exactly
  when the two command tokens are equal; neither the number of requested arguments nor
  their values are compared.
\<close>

theorem wildcard_amid_arguments_matches_on_command:
  "''*'' \<in> set (args (parseCommandPattern p)) \<Longrightarrow>
     patternAllows (parseCommandPattern req) (parseCommandPattern p)
       \<longleftrightarrow> command (parseCommandPattern p) = command (parseCommandPattern req)"
  by (simp add: patternAllows_def star_in_args_wildcard)

theorem wildcard_amid_arguments_matches_on_command_witness:
  "''*'' \<in> set (args (parseCommandPattern ''gh pr *''))
   \<and> (patternAllows (parseCommandPattern ''gh pr view 42'') (parseCommandPattern ''gh pr *'')
        \<longleftrightarrow> command (parseCommandPattern ''gh pr *'') = command (parseCommandPattern ''gh pr view 42''))
   \<and> command (parseCommandPattern ''gh pr *'') = ''gh''
   \<and> command (parseCommandPattern ''gh pr view 42'') = ''gh''"
proof -
  have star: "''*'' \<in> set (args (parseCommandPattern ''gh pr *''))"
    by (simp add: parseCommandPattern_def)
  show ?thesis
    using star wildcard_amid_arguments_matches_on_command [OF star, of "''gh pr view 42''"]
    by (simp add: parseCommandPattern_def)
qed

text \<open>
  C5. A pattern with no \<open>*\<close> token matches a requested line exactly when the command tokens
  are equal, the argument counts are equal and the arguments are equal position by position;
  \<open>isCommandAllowed\<close> is true exactly when some pattern of the list matches, hence false for
  an undefined or empty allow-list; \<open>npm install\<close> does not authorize \<open>npm install lodash\<close>.
\<close>

theorem literal_pattern_matches_exactly:
  "(''*'' \<notin> set (split_space p) \<longrightarrow>
      (patternAllows (parseCommandPattern req) (parseCommandPattern p) \<longleftrightarrow>
         command (parseCommandPattern p) = command (parseCommandPattern req)
         \<and> length (args (parseCommandPattern p)) = length (args (parseCommandPattern req))
         \<and> (\<forall>i < length (args (parseCommandPattern p)).
               args (parseCommandPattern p) ! i = args (parseCommandPattern req) ! i)))
   \<and> (isCommandAllowed cfg req \<longleftrightarrow>
        (\<exists>cs. allowedCommands cfg = Some cs \<and>
           (\<exists>c \<in> set cs. patternAllows (parseCommandPattern req) (parseCommandPattern (pattern c)))))
   \<and> (allowedCommands cfg = None \<or> allowedCommands cfg = Some [] \<longrightarrow>
        \<not> isCommandAllowed cfg req)
   \<and> \<not> isCommandAllowed
         \<lparr>allowedCommands = Some [\<lparr>pattern = ''npm install'', description = d\<rparr>], shell = sh\<rparr>
         ''npm install lodash''"
proof (intro conjI impI)
  assume nostar: "''*'' \<notin> set (split_space p)"
  let ?a = "parseCommandPattern p" and ?e = "parseCommandPattern req"
  have nw: "\<not> wildcard ?a"
    using nostar by (simp add: parse_wildcard_iff)
  have "set (args ?a) \<subseteq> set (split_space p)"
    using parse_parts [of p] by (metis set_subset_Cons)
  then have na: "\<And>i. i < length (args ?a) \<Longrightarrow> args ?a ! i \<noteq> ''*''"
    using nostar by (metis nth_mem subsetD)
  show "patternAllows ?e ?a \<longleftrightarrow>
          command ?a = command ?e \<and> length (args ?a) = length (args ?e)
          \<and> (\<forall>i < length (args ?a). args ?a ! i = args ?e ! i)"
    using nw na by (auto simp: patternAllows_def every_indexed_iff index_opt_def)
next
  show "isCommandAllowed cfg req \<longleftrightarrow>
        (\<exists>cs. allowedCommands cfg = Some cs \<and>
           (\<exists>c \<in> set cs. patternAllows (parseCommandPattern req) (parseCommandPattern (pattern c))))"
    by (rule isCommandAllowed_iff)
next
  assume "allowedCommands cfg = None \<or> allowedCommands cfg = Some []"
  then show "\<not> isCommandAllowed cfg req"
    by (auto simp: isCommandAllowed_iff)
next
  show "\<not> isCommandAllowed
         \<lparr>allowedCommands = Some [\<lparr>pattern = ''npm install'', description = d\<rparr>], shell = sh\<rparr>
         ''npm install lodash''"
    by (simp add: isCommandAllowed_def parseCommandPattern_def patternAllows_def)
qed

theorem literal_pattern_matches_exactly_witness:
  "''*'' \<notin> set (split_space ''npm install'')
   \<and> patternAllows (parseCommandPattern ''npm install'') (parseCommandPattern ''npm install'')
   \<and> \<not> patternAllows (parseCommandPattern ''npm install lodash'') (parseCommandPattern ''npm install'')
   \<and> isCommandAllowed
        \<lparr>allowedCommands = Some [\<lparr>pattern = ''ls'', description = ''list''\<rparr>,
                                 \<lparr>pattern = ''npm install'', description = ''install''\<rparr>],
         shell = ''/bin/bash''\<rparr> ''npm install''
   \<and> \<not> isCommandAllowed \<lparr>allowedCommands = None, shell = ''/bin/bash''\<rparr> ''npm install''
   \<and> \<not> isCommandAllowed \<lparr>allowedCommands = Some [], shell = ''/bin/bash''\<rparr> ''npm install''"
proof -
  let ?two = "[\<lparr>pattern = ''ls'', description = ''list''\<rparr>,
               \<lparr>pattern = ''npm install'', description = ''install''\<rparr>]"
  have nostar: "''*'' \<notin> set (split_space ''npm install'')"
    by simp
  have parses: "parseCommandPattern ''npm install'' = \<lparr>command = ''npm'', args = [''install''], wildcard = False\<rparr>"
    "parseCommandPattern ''npm install lodash''
       = \<lparr>command = ''npm'', args = [''install'', ''lodash''], wildcard = False\<rparr>"
    "parseCommandPattern ''ls'' = \<lparr>command = ''ls'', args = [], wildcard = False\<rparr>"
    by (simp_all add: parseCommandPattern_def)
  note a = literal_pattern_matches_exactly
    [where p = "''npm install''" and req = "''npm install''"
       and cfg = "\<lparr>allowedCommands = Some ?two, shell = ''/bin/bash''\<rparr>"]
  note b = literal_pattern_matches_exactly
    [where p = "''npm install''" and req = "''npm install lodash''"
       and cfg = "\<lparr>allowedCommands = None, shell = ''/bin/bash''\<rparr>"]
  note c = literal_pattern_matches_exactly
    [where p = "''npm install''" and req = "''npm install''"
       and cfg = "\<lparr>allowedCommands = Some [], shell = ''/bin/bash''\<rparr>"]
  have m1: "patternAllows (parseCommandPattern ''npm install'') (parseCommandPattern ''npm install'')"
    using a nostar by (simp add: parses)
  have m2: "\<not> patternAllows (parseCommandPattern ''npm install lodash'')
               (parseCommandPattern ''npm install'')"
    using b nostar by (simp add: parses)
  have m3: "isCommandAllowed \<lparr>allowedCommands = Some ?two, shell = ''/bin/bash''\<rparr> ''npm install''"
    using a m1 by simp
  have m4: "\<not> isCommandAllowed \<lparr>allowedCommands = None, shell = ''/bin/bash''\<rparr> ''npm install''"
    using literal_pattern_matches_exactly
      [where p = "''npm install''" and req = "''npm install''"
         and cfg = "\<lparr>allowedCommands = None, shell = ''/bin/bash''\<rparr>"]
    by simp
  have m5: "\<not> isCommandAllowed \<lparr>allowedCommands = Some [], shell = ''/bin/bash''\<rparr> ''npm install''"
    using c by simp
  show ?thesis
    using nostar m1 m2 m3 m4 m5 by blast
qed

section \<open>Claims about output classification\<close>

text \<open>
  C3. \<open>checkForErrors\<close> is true for an empty stdout with the stderr text
  \<open>Error: Cannot find module 'x'\<close>. For the stdout text
  \<open>app crashed but waiting for file changes\<close> and an empty stderr the claim expects false,
  but the code answers true: \<open>app crashed\<close> is itself one of the error patterns, so the first
  test fires before the crash test with its exception for \<open>waiting for file changes\<close> is
  reached.
\<close>

theorem checkForErrors_crash_not_suppressed:
  "checkForErrors [] (''Error: Cannot find module '' @ [CHR 0x27] @ ''x'' @ [CHR 0x27])
   \<and> checkForErrors ''app crashed but waiting for file changes'' []"
  by (simp add: checkForErrors_def errorPatterns_def)

section \<open>Claims about process sessions\<close>

lemma sendInput_rejects_iff:
  "isl (sendInput svc inp) \<longleftrightarrow>
     (case processStates svc (stdin_pid inp) of None \<Rightarrow> True | Some st \<Rightarrow> process st = None)"
  by (simp add: sendInput_def split: option.splits)

lemma sendInput_onExit_purges:
  "processStates (fst (sendInput_onExit ec (svc, c))) (call_pid c) = None
   \<and> runningProcesses (fst (sendInput_onExit ec (svc, c))) (call_pid c) = None"
  by (simp add: sendInput_onExit_def Let_def cleanup_def split: prod.splits)

lemma printf_ready_is_ready: "isServerReady ''ready''"
  by code_simp

lemma printf_ready_not_waiting: "isWaitingForInput ''ready'' = None"
  by (simp add: isWaitingForInput_def is_line_terminator_def)

text \<open>
  C4. The claim: once \<open>isRunning\<close> of a session is false, \<open>sendInput\<close> for its pid is rejected.
  The code at a failing input: the allowed command \<open>printf ready\<close> gets pid 4242, writes
  \<open>ready\<close> to its standard output and exits with code 0. Both listeners end in the early
  return of \<open>completeWithSuccess\<close> for a ready server, which resolves the promise without
  removing the session. Afterwards the session is still in both tables with \<open>isRunning\<close>
  false, and \<open>sendInput\<close> for pid 4242 is not rejected.
\<close>

theorem exited_session_still_accepts_input:
  "(case executeCommand
           \<lparr>config = \<lparr>allowedCommands = Some [\<lparr>pattern = ''printf ready'', description = ''print''\<rparr>],
                      shell = ''/bin/bash''\<rparr>,
            runningProcesses = Map.empty, processStates = Map.empty\<rparr>
           \<lparr>input_command = ''printf ready'', cwd = ''/tmp''\<rparr> (Some 4242) 0 of
      Inl e \<Rightarrow> False
    | Inr started \<Rightarrow>
        (case executeCommand_events [StdoutData ''ready'', ExitEvent (Some 0)] started of
           (svc, c) \<Rightarrow>
             map_option isRunning (processStates svc 4242) = Some False
             \<and> runningProcesses svc 4242 \<noteq> None
             \<and> map_option isl (settled c) = Some False
             \<and> \<not> isl (sendInput svc \<lparr>stdin_pid = 4242, stdin = ''yes''\<rparr>)))"
  by (simp add: executeCommand_def isCommandAllowed_def parseCommandPattern_def patternAllows_def
      every_indexed_def index_opt_def initializeProcessState_def updateProcessState_def
      executeCommand_events_def executeCommand_onStdout_def executeCommand_onExit_def
      checkForErrors_def errorPatterns_def printf_ready_is_ready printf_ready_not_waiting
      completeWithSuccess_def settle_def result_of_def sendInput_def Let_def)

text \<open>
  C10. \<open>stopProcess\<close> for a pid that is not in the table of running processes resolves,
  calls \<open>process.kill\<close> not at all and leaves the service as it was; when \<open>process.kill\<close>
  throws for a tracked pid, \<open>stopProcess\<close> throws and leaves the service as it was, so the
  session stays in both tables.
\<close>

theorem stopProcess_untracked_or_failed_keeps_state:
  "(runningProcesses svc p = None \<longrightarrow> stopProcess kill svc p = (Inr (), svc, []))
   \<and> (runningProcesses svc p \<noteq> None \<and> kill (- p) = KillThrows e \<longrightarrow>
        stopProcess kill svc p = (Inl (FailedToStopProcess p (error_message e)), svc, [- p]))"
  by (auto simp: stopProcess_def split: option.splits)

theorem stopProcess_untracked_or_failed_keeps_state_witness:
  "runningProcesses
      \<lparr>config = \<lparr>allowedCommands = None, shell = ''/bin/sh''\<rparr>,
       runningProcesses = [7 \<mapsto> \<lparr>info_pid = 7, info_command = ''npm start'', timestamp = 1\<rparr>],
       processStates = Map.empty\<rparr> 8 = None
   \<and> stopProcess (\<lambda>n. KillThrows (Some ''EPERM''))
        \<lparr>config = \<lparr>allowedCommands = None, shell = ''/bin/sh''\<rparr>,
         runningProcesses = [7 \<mapsto> \<lparr>info_pid = 7, info_command = ''npm start'', timestamp = 1\<rparr>],
         processStates = Map.empty\<rparr> 8
       = (Inr (),
          \<lparr>config = \<lparr>allowedCommands = None, shell = ''/bin/sh''\<rparr>,
           runningProcesses = [7 \<mapsto> \<lparr>info_pid = 7, info_command = ''npm start'', timestamp = 1\<rparr>],
           processStates = Map.empty\<rparr>, [])
   \<and> runningProcesses
      \<lparr>config = \<lparr>allowedCommands = None, shell = ''/bin/sh''\<rparr>,
       runningProcesses = [7 \<mapsto> \<lparr>info_pid = 7, info_command = ''npm start'', timestamp = 1\<rparr>],
       processStates = Map.empty\<rparr> 7 \<noteq> None
   \<and> stopProcess (\<lambda>n. KillThrows (Some ''EPERM''))
        \<lparr>config = \<lparr>allowedCommands = None, shell = ''/bin/sh''\<rparr>,
         runningProcesses = [7 \<mapsto> \<lparr>info_pid = 7, info_command = ''npm start'', timestamp = 1\<rparr>],
         processStates = Map.empty\<rparr> 7
       = (Inl (FailedToStopProcess 7 ''EPERM''),
          \<lparr>config = \<lparr>allowedCommands = None, shell = ''/bin/sh''\<rparr>,
           runningProcesses = [7 \<mapsto> \<lparr>info_pid = 7, info_command = ''npm start'', timestamp = 1\<rparr>],
           processStates = Map.empty\<rparr>, [- 7])"
proof -
  let ?svc = "\<lparr>config = \<lparr>allowedCommands = None, shell = ''/bin/sh''\<rparr>,
       runningProcesses = [7 \<mapsto> \<lparr>info_pid = 7, info_command = ''npm start'', timestamp = 1\<rparr>],
       processStates = Map.empty\<rparr>"
  let ?kill = "\<lambda>n::int. KillThrows (Some ''EPERM'')"
  have u: "runningProcesses ?svc 8 = None" by simp
  have t: "runningProcesses ?svc 7 \<noteq> None \<and> ?kill (- 7) = KillThrows (Some ''EPERM'')" by simp
  show ?thesis
    using u t
      stopProcess_untracked_or_failed_keeps_state [of ?svc 8 ?kill "Some ''EPERM''"]
      stopProcess_untracked_or_failed_keeps_state [of ?svc 7 ?kill "Some ''EPERM''"]
    by (simp add: error_message_def)
qed

section \<open>Facts about sorting and the configuration cache\<close>









lemma every_indexed_same: "every_indexed (\<lambda>name i. Some name = index_opt xs i) xs"
  by (simp add: every_indexed_iff index_opt_def)


lemma hasConfigChanged_after_update:
  assumes "updateConfigCache host servers st = Inr st1"
  shows "hasConfigChanged host st1 servers = Inr False"
proof -
  from assms obtain h where h: "generateConfigHash host servers = Inr h"
    and st1: "st1 = st\<lparr>lastMcpServerConfigHash := Some h,
                  lastMcpServerLength := length servers,
                  lastMcpServerNames := sort (map srv_name servers)\<rparr>"
    by (auto simp: updateConfigCache_def split: sum.splits)
  show ?thesis
    by (simp add: hasConfigChanged_def st1 h every_indexed_same)
qed

lemma hasConfigChanged_after_init:
  assumes "initMcpFromAgentConfig host servers st = (Inr (), st1)"
  shows "hasConfigChanged host st1 servers = Inr False"
proof (cases "hasConfigChanged host st servers")
  case (Inl e)
  with assms show ?thesis by (simp add: initMcpFromAgentConfig_def)
next
  case (Inr changed)
  show ?thesis
  proof (cases changed)
    case False
    with Inr assms show ?thesis by (simp add: initMcpFromAgentConfig_def)
  next
    case True
    with Inr assms have act: "activate host servers st = (Inr (), st1)"
      by (auto simp: initMcpFromAgentConfig_def split: prod.splits sum.splits)
    then obtain st2 where "updateConfigCache host servers st2 = Inr st1"
      by (auto simp: activate_def Let_def split: if_splits sum.splits prod.splits)
    then show ?thesis by (rule hasConfigChanged_after_update)
  qed
qed




section \<open>Claims about the registry\<close>





section \<open>Facts about the activation\<close>
















lemma example_init:
  "initMcpFromAgentConfig example_host
      [\<lparr>srv_name = ''mock-server'', srv_description = ''Mock MCP server for testing'',
        srv_command = Some ''mock-command'', srv_args = Some [''arg1'', ''arg2''],
        srv_env = Some [(''TEST_ENV'', ''test_value'')]\<rparr>] initial_registry
   = (Inr (),
      \<lparr>clients = [(''mock-server'', \<lparr>client_id = 0, tools = [JRef 3]\<rparr>)],
       lastMcpServerConfigHash =
         Some (''[{'' @ [CHR 0x22] @ ''name'' @ [CHR 0x22] @ '':'' @ [CHR 0x22] @ ''mock-server''
               @ [CHR 0x22] @ '','' @ [CHR 0x22] @ ''command'' @ [CHR 0x22] @ '':'' @ [CHR 0x22]
               @ ''mock-command'' @ [CHR 0x22] @ '','' @ [CHR 0x22] @ ''args'' @ [CHR 0x22]
               @ '':['' @ [CHR 0x22] @ ''arg1'' @ [CHR 0x22] @ '','' @ [CHR 0x22] @ ''arg2''
               @ [CHR 0x22] @ ''],'' @ [CHR 0x22] @ ''env'' @ [CHR 0x22] @ '':{'' @ [CHR 0x22]
               @ ''TEST_ENV'' @ [CHR 0x22] @ '':'' @ [CHR 0x22] @ ''test_value'' @ [CHR 0x22]
               @ ''}}]''),
       lastMcpServerLength = 1, lastMcpServerNames = [''mock-server''],
       heap = [JObject [(''type'', JStr ''object'')],
               JObject [(''json'', JRef 0)],
               JObject [(''name'', JStr ''mockTool''),
                        (''description'', JStr ''A mocked tool for testing''),
                        (''inputSchema'', JRef 1)],
               JObject [(''toolSpec'', JRef 2)]]\<rparr>)"
  by (simp add: initMcpFromAgentConfig_def hasConfigChanged_def initial_registry_def activate_def
      configSchema_safeParse_def configData_def assign_server_def for_in_def entrySchema_def inherited_properties_def example_host_def mock_fromCommand_def
      updateConfigCache_def generateConfigHash_def sort_by_def essentialConfig_def
      json_object_def json_array_def json_string_def json_escape_def Let_def)


section \<open>Claims about failures of the activation\<close>




section \<open>Claims about invoking a tool\<close>




section \<open>Facts about stores and copies\<close>

lemma sequence_sum_map_cong:
  "sequence_sum (map f xs) = Inr rs \<Longrightarrow>
   (\<And>x r. x \<in> set xs \<Longrightarrow> f x = Inr r \<Longrightarrow> g x = Inr r) \<Longrightarrow>
   sequence_sum (map g xs) = Inr rs"
proof (induction xs arbitrary: rs)
  case Nil
  then show ?case by simp
next
  case (Cons x xs)
  from Cons.prems(1) obtain r rs' where r: "f x = Inr r" and rs': "sequence_sum (map f xs) = Inr rs'"
    and rs: "rs = r # rs'"
    by (auto split: sum.splits)
  have "g x = Inr r" using Cons.prems(2) r by simp
  moreover have "sequence_sum (map g xs) = Inr rs'"
    using rs' Cons.prems(2) by (intro Cons.IH) auto
  ultimately show ?case using rs by simp
qed

lemma stringify_more_fuel:
  "stringify n h v = Inr r \<Longrightarrow> stringify (n + k) h v = Inr r"
proof (induction n arbitrary: v r)
  case 0
  then show ?case by (cases v) auto
next
  case (Suc n)
  show ?case
  proof (cases v)
    case (JRef a)
    show ?thesis
    proof (cases "index_opt h a")
      case None
      with Suc.prems JRef show ?thesis by simp
    next
      case (Some c)
      show ?thesis
      proof (cases c)
        case (JArray xs)
        with Suc.prems JRef Some obtain rs where rs: "sequence_sum (map (stringify n h) xs) = Inr rs"
          and r: "r = Some (JsArr (map (\<lambda>r. case r of None \<Rightarrow> JsNull | Some j \<Rightarrow> j) rs))"
          by (auto split: sum.splits)
        have "sequence_sum (map (stringify (n + k) h) xs) = Inr rs"
          using rs Suc.IH by (rule sequence_sum_map_cong)
        with JRef Some JArray r show ?thesis by simp
      next
        case (JObject ps)
        with Suc.prems JRef Some obtain rs where rs: "sequence_sum (map (\<lambda>p. stringify n h (snd p)) ps) = Inr rs"
          and r: "r = Some (JsObj (concat (map (\<lambda>(k, r). case r of None \<Rightarrow> [] | Some j \<Rightarrow> [(k, j)])
                                          (zip (map fst ps) rs))))"
          by (auto split: sum.splits)
        have "sequence_sum (map (\<lambda>p. stringify (n + k) h (snd p)) ps) = Inr rs"
          using rs Suc.IH by (rule sequence_sum_map_cong)
        with JRef Some JObject r show ?thesis by simp
      qed
    qed
  qed (use Suc.prems in auto)
qed

lemma stringify_agree:
  assumes "take m h' = take m h" and "m \<le> length h" and "m \<le> length h'"
    and "cells_below m (take m h)"
  shows "val_below m v \<Longrightarrow> stringify n h' v = stringify n h v"
proof (induction n arbitrary: v)
  case 0
  then show ?case by (cases v) auto
next
  case (Suc n)
  show ?case
  proof (cases v)
    case (JRef a)
    with Suc.prems have a: "a < m" by (simp add: val_below_def)
    have "h' ! a = take m h' ! a" using a by simp
    also have "\<dots> = h ! a" using a assms(1) by simp
    finally have same: "index_opt h' a = index_opt h a"
      using a assms(2,3) by (simp add: index_opt_def)
    have "h ! a \<in> set (take m h)"
      using a assms(2) by (metis length_take min.absorb2 nth_mem nth_take)
    then have vals: "list_all (val_below m) (cell_values (h ! a))"
      using assms(4) by (simp add: cells_below_def list_all_iff)
    have cell: "index_opt h a = Some (h ! a)"
      using a assms(2) by (simp add: index_opt_def)
    show ?thesis
    proof (cases "h ! a")
      case (JArray xs)
      then have "\<And>x. x \<in> set xs \<Longrightarrow> val_below m x"
        using vals by (simp add: cell_values_def list_all_iff)
      then have "map (stringify n h') xs = map (stringify n h) xs"
        using Suc.IH by simp
      with JRef same cell JArray show ?thesis by (simp del: map_eq_conv)
    next
      case (JObject ps)
      then have "\<And>p. p \<in> set ps \<Longrightarrow> val_below m (snd p)"
        using vals by (simp add: cell_values_def list_all_iff)
      then have "map (\<lambda>p. stringify n h' (snd p)) ps = map (\<lambda>p. stringify n h (snd p)) ps"
        using Suc.IH by simp
      with JRef same cell JObject show ?thesis by (simp del: map_eq_conv)
    qed
  qed auto
qed

lemma val_below_mono: "val_below n v \<Longrightarrow> n \<le> n' \<Longrightarrow> val_below n' v"
  by (cases v) (auto simp: val_below_def)

lemma val_from_mono: "val_from n v \<Longrightarrow> n' \<le> n \<Longrightarrow> val_from n' v"
  by (cases v) (auto simp: val_from_def)

lemma cells_below_mono: "cells_below n cs \<Longrightarrow> n \<le> n' \<Longrightarrow> cells_below n' cs"
  by (auto simp: cells_below_def list_all_iff intro: val_below_mono)

lemma cells_from_mono: "cells_from n cs \<Longrightarrow> n' \<le> n \<Longrightarrow> cells_from n' cs"
  by (auto simp: cells_from_def list_all_iff intro: val_from_mono)

lemma cells_below_append [simp]:
  "cells_below n (xs @ ys) \<longleftrightarrow> cells_below n xs \<and> cells_below n ys"
  by (simp add: cells_below_def)

lemma cells_from_append [simp]:
  "cells_from n (xs @ ys) \<longleftrightarrow> cells_from n xs \<and> cells_from n ys"
  by (simp add: cells_from_def)

lemma vals_below_mono: "list_all (val_below n) vs \<Longrightarrow> n \<le> n' \<Longrightarrow> list_all (val_below n') vs"
  by (auto simp: list_all_iff intro: val_below_mono)

lemma vals_from_mono: "list_all (val_from n) vs \<Longrightarrow> n' \<le> n \<Longrightarrow> list_all (val_from n') vs"
  by (auto simp: list_all_iff intro: val_from_mono)

lemma cells_below_single [simp]: "cells_below n [c] \<longleftrightarrow> list_all (val_below n) (cell_values c)"
  by (simp add: cells_below_def)

lemma cells_from_single [simp]: "cells_from n [c] \<longleftrightarrow> list_all (val_from n) (cell_values c)"
  by (simp add: cells_from_def)

lemma cells_nil [simp]: "cells_below n []" "cells_from n []"
  by (simp_all add: cells_below_def cells_from_def)

lemma val_ref [simp]: "val_below n (JRef a) \<longleftrightarrow> a < n" "val_from n (JRef a) \<longleftrightarrow> n \<le> a"
  by (simp_all add: val_below_def val_from_def)

lemma val_prim [simp]:
  "val_below n JUndefined" "val_below n JNull" "val_below n (JBool b)" "val_below n (JNum i)"
  "val_below n (JStr s)" "val_from n JUndefined" "val_from n JNull" "val_from n (JBool b)"
  "val_from n (JNum i)" "val_from n (JStr s)"
  by (simp_all add: val_below_def val_from_def)

lemma cell_values_simps [simp]:
  "cell_values (JArray xs) = xs" "cell_values (JObject ps) = map snd ps"
  by (simp_all add: cell_values_def)

lemma build_bounds:
  "build d base = (v, cs) \<Longrightarrow>
     val_from base v \<and> val_below (base + length cs) v
     \<and> cells_from base cs \<and> cells_below (base + length cs) cs"
  and build_list_bounds:
  "build_list xs base = (vs, cs) \<Longrightarrow>
     list_all (val_from base) vs \<and> list_all (val_below (base + length cs)) vs
     \<and> cells_from base cs \<and> cells_below (base + length cs) cs"
  and build_props_bounds:
  "build_props ps base = (vps, cs) \<Longrightarrow>
     list_all (val_from base) (map snd vps) \<and> list_all (val_below (base + length cs)) (map snd vps)
     \<and> cells_from base cs \<and> cells_below (base + length cs) cs"
proof (induction d base and xs base and ps base arbitrary: v cs and vs cs and vps cs
    rule: build_build_list_build_props.induct)
  case (5 xs base)
  obtain vs cs' where b: "build_list xs base = (vs, cs')"
    by (cases "build_list xs base")
  with "5.prems" have v: "v = JRef (base + length cs')" and cs: "cs = cs' @ [JArray vs]"
    by simp_all
  from "5.IH" [OF b] show ?case
    unfolding v cs
    by (auto intro: vals_below_mono cells_below_mono)
next
  case (6 ps base)
  obtain vps cs' where b: "build_props ps base = (vps, cs')"
    by (cases "build_props ps base")
  with "6.prems" have v: "v = JRef (base + length cs')" and cs: "cs = cs' @ [JObject vps]"
    by simp_all
  from "6.IH" [OF b] show ?case
    unfolding v cs
    by (auto intro: vals_below_mono cells_below_mono)
next
  case (8 x xs base)
  obtain v1 cs1 where b1: "build x base = (v1, cs1)"
    by (cases "build x base")
  obtain vs2 cs2 where b2: "build_list xs (base + length cs1) = (vs2, cs2)"
    by (cases "build_list xs (base + length cs1)")
  from "8.prems" b1 b2 have vs: "vs = v1 # vs2" and cs: "cs = cs1 @ cs2"
    by simp_all
  note i1 = "8.IH"(1) [OF b1]
  note i2 = "8.IH"(2) [OF b1 [symmetric] refl b2]
  show ?case
    unfolding vs cs using i1 i2
    by (auto intro: val_below_mono val_from_mono vals_below_mono vals_from_mono
        cells_below_mono cells_from_mono)
next
  case (10 p ps base)
  obtain v1 cs1 where b1: "build (snd p) base = (v1, cs1)"
    by (cases "build (snd p) base")
  obtain vps2 cs2 where b2: "build_props ps (base + length cs1) = (vps2, cs2)"
    by (cases "build_props ps (base + length cs1)")
  from "10.prems" b1 b2 have vps: "vps = (fst p, v1) # vps2" and cs: "cs = cs1 @ cs2"
    by simp_all
  note i1 = "10.IH"(1) [OF b1]
  note i2 = "10.IH"(2) [OF b1 [symmetric] refl b2]
  show ?case
    unfolding vps cs using i1 i2
    by (auto intro: val_below_mono val_from_mono vals_below_mono vals_from_mono
        cells_below_mono cells_from_mono)
qed auto

lemma build_props_keys: "build_props ps base = (vps, cs) \<Longrightarrow> map fst vps = map fst ps"
proof (induction ps arbitrary: base vps cs)
  case Nil
  then show ?case by simp
next
  case (Cons p ps)
  then show ?case
    by (auto simp: Let_def split: prod.splits)
qed

lemma sequence_sum_all_Inr: "sequence_sum (map (\<lambda>x. Inr (f x)) xs) = Inr (map f xs)"
  by (induction xs) auto

lemma zip_keys_values:
  "concat (map (\<lambda>(k, r). case r of None \<Rightarrow> [] | Some j \<Rightarrow> [(k, j)])
             (zip (map fst ps) (map (\<lambda>p. Some (snd p)) ps))) = ps"
  by (induction ps) auto

lemma build_readback:
  "build d base = (v, cs) \<Longrightarrow> length h = base \<Longrightarrow>
     stringify (length cs + k) (h @ cs @ rest) v = Inr (Some d)"
  and build_list_readback:
  "build_list xs base = (vs, cs) \<Longrightarrow> length h = base \<Longrightarrow>
     map (stringify (length cs + k) (h @ cs @ rest)) vs = map (\<lambda>x. Inr (Some x)) xs"
  and build_props_readback:
  "build_props ps base = (vps, cs) \<Longrightarrow> length h = base \<Longrightarrow>
     map (\<lambda>p. stringify (length cs + k) (h @ cs @ rest) (snd p)) vps
       = map (\<lambda>p. Inr (Some (snd p))) ps"
proof (induction d base and xs base and ps base
    arbitrary: v cs h k rest and vs cs h k rest and vps cs h k rest
    rule: build_build_list_build_props.induct)
  case (5 xs base)
  obtain vs cs' where b: "build_list xs base = (vs, cs')"
    by (cases "build_list xs base")
  with "5.prems" have v: "v = JRef (base + length cs')" and cs: "cs = cs' @ [JArray vs]"
    by simp_all
  let ?H = "h @ cs' @ [JArray vs] @ rest"
  have cell: "index_opt ?H (base + length cs') = Some (JArray vs)"
    using "5.prems"(2) by (simp add: index_opt_def nth_append)
  have "map (stringify (length cs' + k) (h @ cs' @ ([JArray vs] @ rest))) vs
          = map (\<lambda>x. Inr (Some x)) xs"
    using "5.IH" [OF b "5.prems"(2)] .
  then have "sequence_sum (map (stringify (length cs' + k) ?H) vs) = Inr (map Some xs)"
    by (simp add: sequence_sum_all_Inr del: map_eq_conv)
  then show ?case
    unfolding v cs using cell by (simp add: comp_def)
next
  case (6 ps base)
  obtain vps cs' where b: "build_props ps base = (vps, cs')"
    by (cases "build_props ps base")
  with "6.prems" have v: "v = JRef (base + length cs')" and cs: "cs = cs' @ [JObject vps]"
    by simp_all
  let ?H = "h @ cs' @ [JObject vps] @ rest"
  have cell: "index_opt ?H (base + length cs') = Some (JObject vps)"
    using "6.prems"(2) by (simp add: index_opt_def nth_append)
  have keys: "map fst vps = map fst ps"
    using b by (rule build_props_keys)
  have "map (\<lambda>p. stringify (length cs' + k) (h @ cs' @ ([JObject vps] @ rest)) (snd p)) vps
          = map (\<lambda>p. Inr (Some (snd p))) ps"
    using "6.IH" [OF b "6.prems"(2)] .
  then have "sequence_sum (map (\<lambda>p. stringify (length cs' + k) ?H (snd p)) vps)
               = Inr (map (\<lambda>p. Some (snd p)) ps)"
    by (simp add: sequence_sum_all_Inr del: map_eq_conv)
  then show ?case
    unfolding v cs using cell keys by (simp add: zip_keys_values)
next
  case (8 x xs base)
  obtain v1 cs1 where b1: "build x base = (v1, cs1)"
    by (cases "build x base")
  obtain vs2 cs2 where b2: "build_list xs (base + length cs1) = (vs2, cs2)"
    by (cases "build_list xs (base + length cs1)")
  from "8.prems" b1 b2 have vs: "vs = v1 # vs2" and cs: "cs = cs1 @ cs2"
    by simp_all
  have len: "length (h @ cs1) = base + length cs1"
    using "8.prems"(2) by simp
  have i1: "stringify (length cs1 + (length cs2 + k)) (h @ cs1 @ (cs2 @ rest)) v1 = Inr (Some x)"
    using "8.IH"(1) [OF b1 "8.prems"(2)] .
  have i2: "map (stringify (length cs2 + (length cs1 + k)) ((h @ cs1) @ cs2 @ rest)) vs2
              = map (\<lambda>x. Inr (Some x)) xs"
    using "8.IH"(2) [OF b1 [symmetric] refl b2 len] .
  have f: "length cs2 + (length cs1 + k) = length cs1 + (length cs2 + k)"
    by simp
  show ?case
    unfolding vs cs using i1 i2
    by (simp add: f add.assoc del: map_eq_conv)
next
  case (10 p ps base)
  obtain v1 cs1 where b1: "build (snd p) base = (v1, cs1)"
    by (cases "build (snd p) base")
  obtain vps2 cs2 where b2: "build_props ps (base + length cs1) = (vps2, cs2)"
    by (cases "build_props ps (base + length cs1)")
  from "10.prems" b1 b2 have vps: "vps = (fst p, v1) # vps2" and cs: "cs = cs1 @ cs2"
    by simp_all
  have len: "length (h @ cs1) = base + length cs1"
    using "10.prems"(2) by simp
  have i1: "stringify (length cs1 + (length cs2 + k)) (h @ cs1 @ (cs2 @ rest)) v1
              = Inr (Some (snd p))"
    using "10.IH"(1) [OF b1 "10.prems"(2)] .
  have i2: "map (\<lambda>p. stringify (length cs2 + (length cs1 + k)) ((h @ cs1) @ cs2 @ rest) (snd p)) vps2
              = map (\<lambda>p. Inr (Some (snd p))) ps"
    using "10.IH"(2) [OF b1 [symmetric] refl b2 len] .
  have f: "length cs2 + (length cs1 + k) = length cs1 + (length cs2 + k)"
    by simp
  show ?case
    unfolding vps cs using i1 i2
    by (simp add: f add.assoc del: map_eq_conv)
qed auto

lemma assign_same: "map_of ps k = Some v \<Longrightarrow> assign k v ps = ps"
  by (induction ps) (auto split: if_splits)

lemma build_props_absent:
  "build_props ps base = (vps, cs) \<Longrightarrow> map_of ps k = None \<Longrightarrow> map_of vps k = None"
  by (metis build_props_keys map_of_eq_None_iff set_map)

lemma build_props_lookup:
  assumes "build_props ps base = (vps, cs)" and "map_of ps k = Some x"
  shows "\<exists>pre post.
           cs = pre @ snd (build x (base + length pre)) @ post
           \<and> map_of vps k = Some (fst (build x (base + length pre)))
           \<and> (\<forall>x'. length (snd (build x' (base + length pre)))
                       = length (snd (build x (base + length pre))) \<longrightarrow>
                  build_props (assign k x' ps) base
                    = (assign k (fst (build x' (base + length pre))) vps,
                       pre @ snd (build x' (base + length pre)) @ post))"
  using assms
proof (induction ps arbitrary: base vps cs)
  case Nil
  then show ?case by simp
next
  case (Cons p ps)
  obtain v1 cs1 where b1: "build (snd p) base = (v1, cs1)"
    by (cases "build (snd p) base")
  obtain vps2 cs2 where b2: "build_props ps (base + length cs1) = (vps2, cs2)"
    by (cases "build_props ps (base + length cs1)")
  from Cons.prems(1) b1 b2 have vps: "vps = (fst p, v1) # vps2" and cs: "cs = cs1 @ cs2"
    by simp_all
  show ?case
  proof (cases "fst p = k")
    case True
    with Cons.prems(2) have x: "snd p = x"
      by (cases p) simp
    have "cs = [] @ snd (build x (base + length ([]::jsobj list))) @ cs2"
      using cs b1 x by simp
    moreover have "map_of vps k = Some (fst (build x (base + length ([]::jsobj list))))"
      using vps True b1 x by simp
    moreover have "\<forall>x'. length (snd (build x' (base + length ([]::jsobj list))))
                       = length (snd (build x (base + length ([]::jsobj list)))) \<longrightarrow>
                  build_props (assign k x' (p # ps)) base
                    = (assign k (fst (build x' (base + length ([]::jsobj list)))) vps,
                       [] @ snd (build x' (base + length ([]::jsobj list))) @ cs2)"
      using True vps b1 b2 x by (auto simp: Let_def split: prod.splits)
    ultimately show ?thesis by blast
  next
    case False
    with Cons.prems(2) have look: "map_of ps k = Some x"
      by (cases p) (simp split: if_splits)
    from Cons.IH [OF b2 look] obtain pre post where
      c2: "cs2 = pre @ snd (build x (base + length cs1 + length pre)) @ post"
      and m2: "map_of vps2 k = Some (fst (build x (base + length cs1 + length pre)))"
      and r2: "\<forall>x'. length (snd (build x' (base + length cs1 + length pre)))
                       = length (snd (build x (base + length cs1 + length pre))) \<longrightarrow>
                  build_props (assign k x' ps) (base + length cs1)
                    = (assign k (fst (build x' (base + length cs1 + length pre))) vps2,
                       pre @ snd (build x' (base + length cs1 + length pre)) @ post)"
      by blast
    have e: "base + length (cs1 @ pre) = base + length cs1 + length pre"
      by simp
    have "cs = (cs1 @ pre) @ snd (build x (base + length (cs1 @ pre))) @ post"
      unfolding e using cs c2 by simp
    moreover have "map_of vps k = Some (fst (build x (base + length (cs1 @ pre))))"
      unfolding e using vps False m2 by simp
    moreover have "\<forall>x'. length (snd (build x' (base + length (cs1 @ pre))))
                       = length (snd (build x (base + length (cs1 @ pre)))) \<longrightarrow>
                  build_props (assign k x' (p # ps)) base
                    = (assign k (fst (build x' (base + length (cs1 @ pre)))) vps,
                       (cs1 @ pre) @ snd (build x' (base + length (cs1 @ pre))) @ post)"
      unfolding e using False vps b1 r2 by (auto simp: Let_def)
    ultimately show ?thesis by blast
  qed
qed

lemma get_prop_built:
  assumes "build d base = (v, cs)" and "length h = base"
  shows "get_prop (h @ cs @ rest) v k =
           (case d of
              JsNull \<Rightarrow> Inl TypeError
            | JsObj ps \<Rightarrow>
                Inr (case map_of (fst (build_props ps base)) k of Some x \<Rightarrow> x | None \<Rightarrow> JUndefined)
            | _ \<Rightarrow> Inr JUndefined)"
proof (cases d)
  case (JsArr xs)
  obtain vs cs' where b: "build_list xs base = (vs, cs')"
    by (cases "build_list xs base")
  with assms JsArr have "v = JRef (length h + length cs')" and "cs = cs' @ [JArray vs]"
    by auto
  then show ?thesis
    using JsArr by (simp add: get_prop_def index_opt_def nth_append)
next
  case (JsObj ps)
  obtain vps cs' where b: "build_props ps base = (vps, cs')"
    by (cases "build_props ps base")
  with assms JsObj have "v = JRef (length h + length cs')" and "cs = cs' @ [JObject vps]"
    by auto
  then show ?thesis
    using JsObj b by (simp add: get_prop_def index_opt_def nth_append)
qed (use assms in \<open>auto simp: get_prop_def\<close>)

lemma cloneTool_unfold:
  assumes "JSON_stringify h tool = Inr (Some d)" and "build d (length h) = (c, cs)"
  shows "cloneTool h tool =
           (case tool_name (h @ cs) c of
                Inl e \<Rightarrow> Inl e
              | Inr JUndefined \<Rightarrow> Inr (c, h @ cs)
              | Inr JNull \<Rightarrow> Inr (c, h @ cs)
              | Inr (JStr s) \<Rightarrow>
                  if s \<noteq> []
                  then (case get_prop (h @ cs) c ''toolSpec'' of
                          Inl e \<Rightarrow> Inl e
                        | Inr ts \<Rightarrow>
                            (case set_prop (h @ cs) ts ''name'' (JStr (''mcp_'' @ s)) of
                               Inl e \<Rightarrow> Inl e
                             | Inr h2 \<Rightarrow> Inr (c, h2)))
                  else Inr (c, h @ cs)
              | Inr _ \<Rightarrow> Inl Unsupported)"
  using assms by (simp add: cloneTool_def JSON_parse_def)

lemma cloneTool_eq:
  assumes d: "JSON_stringify h tool = Inr (Some d)"
  shows "cloneTool h tool =
           (case clone_error d of
              Some e \<Rightarrow> Inl e
            | None \<Rightarrow> Inr (JSON_parse (prefixed_document d) h))"
proof -
  obtain c cs where b: "build d (length h) = (c, cs)"
    by (cases "build d (length h)")
  note unfold = cloneTool_unfold [OF d b]
  have keep: "prefixed_document d = d \<Longrightarrow> clone_error d = None
                \<Longrightarrow> cloneTool h tool = Inr (c, h @ cs) \<Longrightarrow> ?thesis"
    using b by (simp add: JSON_parse_def)
  have fail: "\<And>e. clone_error d = Some e \<Longrightarrow> cloneTool h tool = Inl e \<Longrightarrow> ?thesis"
    by simp
  have gp: "\<And>k. get_prop (h @ cs) c k =
           (case d of
              JsNull \<Rightarrow> Inl TypeError
            | JsObj ps \<Rightarrow>
                Inr (case map_of (fst (build_props ps (length h))) k of
                       Some x \<Rightarrow> x | None \<Rightarrow> JUndefined)
            | _ \<Rightarrow> Inr JUndefined)"
    using get_prop_built [OF b refl, of "[]"] by simp
  show ?thesis
  proof (cases d)
    case JsNull
    with unfold gp show ?thesis
      by (intro fail [of TypeError]) (simp_all add: tool_name_def clone_error_def)
  next
    case (JsBool x)
    with unfold gp show ?thesis
      by (intro keep) (simp_all add: tool_name_def prefixed_document_def clone_error_def)
  next
    case (JsNum x)
    with unfold gp show ?thesis
      by (intro keep) (simp_all add: tool_name_def prefixed_document_def clone_error_def)
  next
    case (JsStr x)
    with unfold gp show ?thesis
      by (intro keep) (simp_all add: tool_name_def prefixed_document_def clone_error_def)
  next
    case (JsArr x)
    with unfold gp show ?thesis
      by (intro keep) (simp_all add: tool_name_def prefixed_document_def clone_error_def)
  next
    case (JsObj ps)
    obtain vps cs' where bp: "build_props ps (length h) = (vps, cs')"
      by (cases "build_props ps (length h)")
    from b JsObj bp have c: "c = JRef (length h + length cs')" and cs: "cs = cs' @ [JObject vps]"
      by auto
    have gts: "get_prop (h @ cs) c ''toolSpec''
                 = Inr (case map_of vps ''toolSpec'' of Some x \<Rightarrow> x | None \<Rightarrow> JUndefined)"
      using gp [of "''toolSpec''"] JsObj bp by simp
    show ?thesis
    proof (cases "map_of ps ''toolSpec''")
      case None
      then have "map_of vps ''toolSpec'' = None"
        using bp by (rule build_props_absent [rotated])
      with unfold gts JsObj None show ?thesis
        by (intro keep) (simp_all add: tool_name_def prefixed_document_def clone_error_def)
    next
      case (Some x)
      from build_props_lookup [OF bp Some] obtain pre post where
        cs': "cs' = pre @ snd (build x (length h + length pre)) @ post"
        and mts: "map_of vps ''toolSpec'' = Some (fst (build x (length h + length pre)))"
        and rts: "\<forall>x'. length (snd (build x' (length h + length pre)))
                       = length (snd (build x (length h + length pre))) \<longrightarrow>
                  build_props (assign ''toolSpec'' x' ps) (length h)
                    = (assign ''toolSpec'' (fst (build x' (length h + length pre))) vps,
                       pre @ snd (build x' (length h + length pre)) @ post)"
        by blast
      obtain tv sub where bx: "build x (length h + length pre) = (tv, sub)"
        by (cases "build x (length h + length pre)")
      have H: "h @ cs = (h @ pre) @ sub @ (post @ [JObject vps])"
        using cs cs' bx by simp
      have gts': "get_prop (h @ cs) c ''toolSpec'' = Inr tv"
        using gts mts bx by simp
      have gname: "get_prop (h @ cs) tv ''name'' =
           (case x of
              JsNull \<Rightarrow> Inl TypeError
            | JsObj qs \<Rightarrow>
                Inr (case map_of (fst (build_props qs (length h + length pre))) ''name'' of
                       Some y \<Rightarrow> y | None \<Rightarrow> JUndefined)
            | _ \<Rightarrow> Inr JUndefined)"
        unfolding H using get_prop_built [OF bx, of "h @ pre" "post @ [JObject vps]" "''name''"]
        by simp
      show ?thesis
      proof (cases x)
        case JsNull
        with bx have "tv = JNull" by simp
        with unfold gts' JsObj Some JsNull show ?thesis
          by (intro keep) (simp_all add: tool_name_def prefixed_document_def clone_error_def)
      next
        case (JsBool y)
        with bx have "tv = JBool y" by simp
        with unfold gts' gname JsObj Some JsBool show ?thesis
          by (intro keep) (simp_all add: tool_name_def prefixed_document_def clone_error_def)
      next
        case (JsNum y)
        with bx have "tv = JNum y" by simp
        with unfold gts' gname JsObj Some JsNum show ?thesis
          by (intro keep) (simp_all add: tool_name_def prefixed_document_def clone_error_def)
      next
        case (JsStr y)
        with bx have "tv = JStr y" by simp
        with unfold gts' gname JsObj Some JsStr show ?thesis
          by (intro keep) (simp_all add: tool_name_def prefixed_document_def clone_error_def)
      next
        case (JsArr ys)
        with bx obtain a where "tv = JRef a"
          by (auto simp: Let_def split: prod.splits)
        with unfold gts' gname JsObj Some JsArr show ?thesis
          by (intro keep) (simp_all add: tool_name_def prefixed_document_def clone_error_def)
      next
        case xo: (JsObj qs)
        obtain vqs cq where bq: "build_props qs (length h + length pre) = (vqs, cq)"
          by (cases "build_props qs (length h + length pre)")
        from bx xo bq have tv: "tv = JRef (length h + length pre + length cq)"
          and sub: "sub = cq @ [JObject vqs]"
          by auto
        have tn: "tool_name (h @ cs) c
                    = Inr (case map_of vqs ''name'' of Some y \<Rightarrow> y | None \<Rightarrow> JUndefined)"
          using gts' gname xo bq tv by (simp add: tool_name_def)
        show ?thesis
        proof (cases "map_of qs ''name''")
          case None
          then have "map_of vqs ''name'' = None"
            using bq by (rule build_props_absent [rotated])
          with unfold tn JsObj Some xo None show ?thesis
            by (intro keep) (simp_all add: prefixed_document_def clone_error_def)
        next
          case nm: (Some nd)
          from build_props_lookup [OF bq nm] obtain qpre qpost where
            cq: "cq = qpre @ snd (build nd (length h + length pre + length qpre)) @ qpost"
            and mn: "map_of vqs ''name''
                       = Some (fst (build nd (length h + length pre + length qpre)))"
            and rn: "\<forall>x'. length (snd (build x' (length h + length pre + length qpre)))
                       = length (snd (build nd (length h + length pre + length qpre))) \<longrightarrow>
                  build_props (assign ''name'' x' qs) (length h + length pre)
                    = (assign ''name'' (fst (build x' (length h + length pre + length qpre))) vqs,
                       qpre @ snd (build x' (length h + length pre + length qpre)) @ qpost)"
            by blast
          show ?thesis
          proof (cases nd)
            case JsNull
            with unfold tn mn \<open>d = JsObj ps\<close> Some xo nm show ?thesis
              by (intro keep) (simp_all add: prefixed_document_def clone_error_def)
          next
            case (JsBool y)
            with unfold tn mn \<open>d = JsObj ps\<close> Some xo nm show ?thesis
              by (intro fail [of Unsupported]) (simp_all add: clone_error_def)
          next
            case (JsNum y)
            with unfold tn mn \<open>d = JsObj ps\<close> Some xo nm show ?thesis
              by (intro fail [of Unsupported]) (simp_all add: clone_error_def)
          next
            case (JsArr ys)
            with unfold tn mn \<open>d = JsObj ps\<close> Some xo nm show ?thesis
              by (intro fail [of Unsupported])
                (simp_all add: clone_error_def Let_def split: prod.splits)
          next
            case (JsObj ys)
            with unfold tn mn \<open>d = JsObj ps\<close> Some xo nm show ?thesis
              by (intro fail [of Unsupported])
                (simp_all add: clone_error_def Let_def split: prod.splits)
          next
            case (JsStr s)
            have ce: "clone_error d = None"
              using \<open>d = JsObj ps\<close> Some xo nm JsStr by (simp add: clone_error_def)
            show ?thesis
            proof (cases "s = []")
              case True
              with unfold tn mn \<open>d = JsObj ps\<close> Some xo nm JsStr ce show ?thesis
                by (intro keep) (simp_all add: prefixed_document_def)
            next
              case False
              let ?vqs' = "assign ''name'' (JStr (''mcp_'' @ s)) vqs"
              let ?qs' = "assign ''name'' (JsStr (''mcp_'' @ s)) qs"
              have cell: "index_opt (h @ cs) (length h + length pre + length cq) = Some (JObject vqs)"
                unfolding H sub by (simp add: index_opt_def nth_append)
              have set: "set_prop (h @ cs) tv ''name'' (JStr (''mcp_'' @ s))
                           = Inr ((h @ cs)[length h + length pre + length cq := JObject ?vqs'])"
                using cell tv by (simp add: set_prop_def)
              have res: "cloneTool h tool
                  = Inr (c, (h @ cs)[length h + length pre + length cq := JObject ?vqs'])"
                using unfold tn mn JsStr False gts' set by simp
              have upd: "(h @ cs)[length h + length pre + length cq := JObject ?vqs']
                           = h @ (pre @ (cq @ [JObject ?vqs']) @ post) @ [JObject vps]"
                unfolding H sub by (simp add: list_update_append)
              have "build_props ?qs' (length h + length pre) = (?vqs', cq)"
                using rn JsStr cq by simp
              then have bx': "build (JsObj ?qs') (length h + length pre)
                                = (tv, cq @ [JObject ?vqs'])"
                using tv by simp
              have "build_props (assign ''toolSpec'' (JsObj ?qs') ps) (length h)
                      = (assign ''toolSpec'' tv vps, pre @ (cq @ [JObject ?vqs']) @ post)"
                using rts bx' bx sub by simp
              moreover have "assign ''toolSpec'' tv vps = vps"
                using mts bx by (intro assign_same) simp
              ultimately have "build (JsObj (assign ''toolSpec'' (JsObj ?qs') ps)) (length h)
                  = (c, (pre @ (cq @ [JObject ?vqs']) @ post) @ [JObject vps])"
                using c cs' bx sub by simp
              moreover have "prefixed_document d = JsObj (assign ''toolSpec'' (JsObj ?qs') ps)"
                using \<open>d = JsObj ps\<close> Some xo nm JsStr False by (simp add: prefixed_document_def)
              ultimately have "JSON_parse (prefixed_document d) h
                  = (c, (h @ cs)[length h + length pre + length cq := JObject ?vqs'])"
                using upd by (simp add: JSON_parse_def)
              with res ce show ?thesis by simp
            qed
          qed
        qed
      qed
    qed
  qed
qed

lemma JSON_stringify_stable:
  assumes "JSON_stringify h t = Inr r" and "take m H = take m h" and "m \<le> length h"
    and "cells_below m (take m h)" and "val_below m t" and "length h \<le> length H"
  shows "JSON_stringify H t = Inr r"
proof -
  have "stringify (length H) H t = stringify (length H) h t"
    using assms(2,3,6,4,5) by (intro stringify_agree [where m = m]) auto
  also have "\<dots> = Inr r"
    using stringify_more_fuel [of "length h" h t r "length H - length h"] assms(1,6)
    by (simp add: JSON_stringify_def)
  finally show ?thesis by (simp add: JSON_stringify_def)
qed

lemma cloneTools_analysis:
  assumes "m \<le> length h" and "cells_below m (take m h)" and "list_all (val_below m) ts"
    and "cloneTools h ts = Inr (vs, h2)"
  shows "\<exists>ds new. length ds = length ts
           \<and> list_all (\<lambda>d. clone_error d = None) ds
           \<and> build_list (map prefixed_document ds) (length h) = (vs, new)
           \<and> h2 = h @ new
           \<and> (\<forall>H. take m H = take m h \<and> length h2 \<le> length H \<longrightarrow>
                  map (JSON_stringify H) ts = map (\<lambda>d. Inr (Some d)) ds)"
  using assms
proof (induction ts arbitrary: h vs h2)
  case Nil
  then show ?case by auto
next
  case (Cons t ts)
  from Cons.prems(4) obtain v h1 vs' where ct: "cloneTool h t = Inr (v, h1)"
    and rest: "cloneTools h1 ts = Inr (vs', h2)" and vs: "vs = v # vs'"
    by (auto split: sum.splits prod.splits)
  from ct obtain d where d: "JSON_stringify h t = Inr (Some d)"
    by (auto simp: cloneTool_def split: sum.splits option.splits)
  from ct cloneTool_eq [OF d] have ce: "clone_error d = None"
    and parse: "JSON_parse (prefixed_document d) h = (v, h1)"
    by (auto split: option.splits)
  obtain cs where b: "build (prefixed_document d) (length h) = (v, cs)" and h1: "h1 = h @ cs"
    using parse by (auto simp: JSON_parse_def split: prod.splits)
  have m1: "m \<le> length h1" and take1: "take m h1 = take m h"
    using Cons.prems(1) h1 by simp_all
  have cb1: "cells_below m (take m h1)"
    using Cons.prems(2) take1 by simp
  have below: "list_all (val_below m) ts"
    using Cons.prems(3) by simp
  from Cons.IH [OF m1 cb1 below rest]
  obtain ds new where len: "length ds = length ts"
    and ok: "list_all (\<lambda>d. clone_error d = None) ds"
    and bl: "build_list (map prefixed_document ds) (length h1) = (vs', new)"
    and h2: "h2 = h1 @ new"
    and docs: "\<forall>H. take m H = take m h1 \<and> length h2 \<le> length H \<longrightarrow>
                  map (JSON_stringify H) ts = map (\<lambda>d. Inr (Some d)) ds"
    by blast
  have docs': "\<forall>H. take m H = take m h \<and> length h2 \<le> length H \<longrightarrow>
                  map (JSON_stringify H) (t # ts) = map (\<lambda>d. Inr (Some d)) (d # ds)"
  proof (intro allI impI)
    fix H assume H: "take m H = take m h \<and> length h2 \<le> length H"
    have vb: "val_below m t"
      using Cons.prems(3) by simp
    have le: "length h \<le> length H"
      using H h1 h2 by simp
    have tk: "take m H = take m h"
      using H by blast
    have hd: "JSON_stringify H t = Inr (Some d)"
      by (rule JSON_stringify_stable [OF d tk Cons.prems(1) Cons.prems(2) vb le])
    have "take m H = take m h1 \<and> length h2 \<le> length H"
      using H take1 by simp
    with docs have tl: "map (JSON_stringify H) ts = map (\<lambda>d. Inr (Some d)) ds"
      by blast
    show "map (JSON_stringify H) (t # ts) = map (\<lambda>d. Inr (Some d)) (d # ds)"
      unfolding list.map hd tl ..
  qed
  show ?case
  proof (intro exI conjI)
    show "length (d # ds) = length (t # ts)"
      using len by simp
    show "list_all (\<lambda>d. clone_error d = None) (d # ds)"
      using ok ce by simp
    show "build_list (map prefixed_document (d # ds)) (length h) = (vs, cs @ new)"
      using b bl h1 vs by simp
    show "h2 = h @ cs @ new"
      using h1 h2 by simp
    show "\<forall>H. take m H = take m h \<and> length h2 \<le> length H \<longrightarrow>
                  map (JSON_stringify H) (t # ts) = map (\<lambda>d. Inr (Some d)) (d # ds)"
      by (rule docs')
  qed
qed

lemma cloneTools_from_documents:
  assumes "\<forall>H'. take m H' = take m H \<and> length H \<le> length H' \<longrightarrow>
              map (JSON_stringify H') ts = map (\<lambda>d. Inr (Some d)) ds"
    and "list_all (\<lambda>d. clone_error d = None) ds" and "m \<le> length H"
  shows "cloneTools H ts
           = Inr (fst (build_list (map prefixed_document ds) (length H)),
                  H @ snd (build_list (map prefixed_document ds) (length H)))"
  using assms
proof (induction ts arbitrary: ds H)
  case Nil
  from Nil.prems(1) have "map (JSON_stringify H) [] = map (\<lambda>d. Inr (Some d)) ds"
    by blast
  then show ?case by simp
next
  case (Cons t ts)
  from Cons.prems(1) have "map (JSON_stringify H) (t # ts) = map (\<lambda>d. Inr (Some d)) ds"
    by blast
  then obtain d ds' where ds: "ds = d # ds'" and d: "JSON_stringify H t = Inr (Some d)"
    by (cases ds) auto
  obtain v cs where b: "build (prefixed_document d) (length H) = (v, cs)"
    by (cases "build (prefixed_document d) (length H)")
  have ct: "cloneTool H t = Inr (v, H @ cs)"
    using cloneTool_eq [OF d] Cons.prems(2) ds b by (simp add: JSON_parse_def)
  have "cloneTools (H @ cs) ts
           = Inr (fst (build_list (map prefixed_document ds') (length (H @ cs))),
                  (H @ cs) @ snd (build_list (map prefixed_document ds') (length (H @ cs))))"
  proof (rule Cons.IH)
    show "\<forall>H'. take m H' = take m (H @ cs) \<and> length (H @ cs) \<le> length H' \<longrightarrow>
              map (JSON_stringify H') ts = map (\<lambda>d. Inr (Some d)) ds'"
    proof (intro allI impI)
      fix H' assume "take m H' = take m (H @ cs) \<and> length (H @ cs) \<le> length H'"
      then have "take m H' = take m H \<and> length H \<le> length H'"
        using Cons.prems(3) by simp
      then have "map (JSON_stringify H') (t # ts) = map (\<lambda>d. Inr (Some d)) ds"
        using Cons.prems(1) by blast
      then show "map (JSON_stringify H') ts = map (\<lambda>d. Inr (Some d)) ds'"
        using ds by simp
    qed
    show "list_all (\<lambda>d. clone_error d = None) ds'"
      using Cons.prems(2) ds by simp
    show "m \<le> length (H @ cs)"
      using Cons.prems(3) by simp
  qed
  then show ?case
    using ct ds b by (simp add: Let_def split: prod.splits)
qed

lemma built_documents:
  assumes "build_list xs (length h) = (vs, new)"
  shows "map (JSON_stringify (h @ new @ rest)) vs = map (\<lambda>x. Inr (Some x)) xs"
proof -
  have e: "length (h @ new @ rest) = length new + (length h + length rest)"
    by simp
  show ?thesis
    unfolding JSON_stringify_def e
    using build_list_readback [OF assms refl, of "length h + length rest" rest]
    by (simp only: )
qed

lemma hasConfigChanged_heap [simp]:
  "hasConfigChanged host (st\<lparr>heap := h\<rparr>) servers = hasConfigChanged host st servers"
  by (simp add: hasConfigChanged_def split: sum.splits)

lemma map_case_documents:
  assumes "map f ts = map (\<lambda>d. Inr (Some d)) ds"
  shows "map (\<lambda>t. case f t of Inr (Some d) \<Rightarrow> Inr (Some (g d)) | r \<Rightarrow> r) ts
           = map (\<lambda>d. Inr (Some (g d))) ds"
  using assms
proof (induction ts arbitrary: ds)
  case Nil
  then show ?case by simp
next
  case (Cons t ts)
  then obtain d ds' where "ds = d # ds'" "f t = Inr (Some d)"
    "map f ts = map (\<lambda>d. Inr (Some d)) ds'"
    by (cases ds) auto
  with Cons.IH show ?case by simp
qed

lemma example_specs:
  "getMcpToolSpecs example_host
      (Some [\<lparr>srv_name = ''mock-server'', srv_description = ''Mock MCP server for testing'',
        srv_command = Some ''mock-command'', srv_args = Some [''arg1'', ''arg2''],
        srv_env = Some [(''TEST_ENV'', ''test_value'')]\<rparr>]) initial_registry
   = (Inr [JRef 7],
      (snd (initMcpFromAgentConfig example_host
      [\<lparr>srv_name = ''mock-server'', srv_description = ''Mock MCP server for testing'',
        srv_command = Some ''mock-command'', srv_args = Some [''arg1'', ''arg2''],
        srv_env = Some [(''TEST_ENV'', ''test_value'')]\<rparr>] initial_registry))
      \<lparr>heap := [JObject [(''type'', JStr ''object'')],
               JObject [(''json'', JRef 0)],
               JObject [(''name'', JStr ''mockTool''),
                        (''description'', JStr ''A mocked tool for testing''),
                        (''inputSchema'', JRef 1)],
               JObject [(''toolSpec'', JRef 2)],
               JObject [(''type'', JStr ''object'')],
               JObject [(''json'', JRef 4)],
               JObject [(''name'', JStr ''mcp_mockTool''),
                        (''description'', JStr ''A mocked tool for testing''),
                        (''inputSchema'', JRef 5)],
               JObject [(''toolSpec'', JRef 6)]]\<rparr>)"
  by (simp add: getMcpToolSpecs_def example_init all_tools_def cloneTool_def JSON_stringify_def
      JSON_parse_def index_opt_def tool_name_def get_prop_def set_prop_def Let_def)

lemma example_second_call:
  "getMcpToolSpecs example_host (Some [\<lparr>srv_name = ''mock-server'', srv_description = ''Mock MCP server for testing'',
        srv_command = Some ''mock-command'', srv_args = Some [''arg1'', ''arg2''],
        srv_env = Some [(''TEST_ENV'', ''test_value'')]\<rparr>])
      \<lparr>clients = [(''mock-server'', \<lparr>client_id = 0, tools = [JRef 3]\<rparr>)],
       lastMcpServerConfigHash =
         Some (''[{'' @ [CHR 0x22] @ ''name'' @ [CHR 0x22] @ '':'' @ [CHR 0x22] @ ''mock-server''
               @ [CHR 0x22] @ '','' @ [CHR 0x22] @ ''command'' @ [CHR 0x22] @ '':'' @ [CHR 0x22]
               @ ''mock-command'' @ [CHR 0x22] @ '','' @ [CHR 0x22] @ ''args'' @ [CHR 0x22]
               @ '':['' @ [CHR 0x22] @ ''arg1'' @ [CHR 0x22] @ '','' @ [CHR 0x22] @ ''arg2''
               @ [CHR 0x22] @ ''],'' @ [CHR 0x22] @ ''env'' @ [CHR 0x22] @ '':{'' @ [CHR 0x22]
               @ ''TEST_ENV'' @ [CHR 0x22] @ '':'' @ [CHR 0x22] @ ''test_value'' @ [CHR 0x22]
               @ ''}}]''),
       lastMcpServerLength = 1, lastMcpServerNames = [''mock-server''],
       heap = [JObject [(''type'', JStr ''object'')],
               JObject [(''json'', JRef 0)],
               JObject [(''name'', JStr ''mockTool''),
                        (''description'', JStr ''A mocked tool for testing''),
                        (''inputSchema'', JRef 1)],
               JObject [(''toolSpec'', JRef 2)],
               JObject [(''type'', JStr ''object'')],
               JObject [(''json'', JRef 4)],
               JObject [(''name'', JStr ''hacked'')],
               JObject [(''toolSpec'', JRef 6)],
               JArray [JRef 7]]\<rparr>
   = (Inr [JRef 12],
      \<lparr>clients = [(''mock-server'', \<lparr>client_id = 0, tools = [JRef 3]\<rparr>)],
       lastMcpServerConfigHash =
         Some (''[{'' @ [CHR 0x22] @ ''name'' @ [CHR 0x22] @ '':'' @ [CHR 0x22] @ ''mock-server''
               @ [CHR 0x22] @ '','' @ [CHR 0x22] @ ''command'' @ [CHR 0x22] @ '':'' @ [CHR 0x22]
               @ ''mock-command'' @ [CHR 0x22] @ '','' @ [CHR 0x22] @ ''args'' @ [CHR 0x22]
               @ '':['' @ [CHR 0x22] @ ''arg1'' @ [CHR 0x22] @ '','' @ [CHR 0x22] @ ''arg2''
               @ [CHR 0x22] @ ''],'' @ [CHR 0x22] @ ''env'' @ [CHR 0x22] @ '':{'' @ [CHR 0x22]
               @ ''TEST_ENV'' @ [CHR 0x22] @ '':'' @ [CHR 0x22] @ ''test_value'' @ [CHR 0x22]
               @ ''}}]''),
       lastMcpServerLength = 1, lastMcpServerNames = [''mock-server''],
       heap = [JObject [(''type'', JStr ''object'')],
               JObject [(''json'', JRef 0)],
               JObject [(''name'', JStr ''mockTool''),
                        (''description'', JStr ''A mocked tool for testing''),
                        (''inputSchema'', JRef 1)],
               JObject [(''toolSpec'', JRef 2)],
               JObject [(''type'', JStr ''object'')],
               JObject [(''json'', JRef 4)],
               JObject [(''name'', JStr ''hacked'')],
               JObject [(''toolSpec'', JRef 6)],
               JArray [JRef 7],
               JObject [(''type'', JStr ''object'')],
               JObject [(''json'', JRef 9)],
               JObject [(''name'', JStr ''mcp_mockTool''),
                        (''description'', JStr ''A mocked tool for testing''),
                        (''inputSchema'', JRef 10)],
               JObject [(''toolSpec'', JRef 11)]]\<rparr>)"
  apply (simp add: getMcpToolSpecs_def initMcpFromAgentConfig_def hasConfigChanged_def
        every_indexed_def index_opt_def generateConfigHash_def sort_by_def essentialConfig_def
        example_host_def json_object_def json_array_def json_string_def json_escape_def)
  apply (simp add: all_tools_def cloneTool_def JSON_stringify_def
        JSON_parse_def index_opt_def tool_name_def get_prop_def set_prop_def Let_def)
  done

section \<open>Claims about tool descriptors\<close>

text \<open>
  C9, as stated, ends with: each tool name carries the namespacing prefix. The code does
  not add the prefix to an empty name, since the test \<open>clonedTool.toolSpec?.name\<close> is false
  for the empty string: a server whose tool has the name \<open>""\<close> gets a copy with the name
  \<open>""\<close>.
\<close>

theorem empty_tool_name_not_prefixed_counterexample:
  "(case getMcpToolSpecs
           (example_host\<lparr>fromCommand :=
              (\<lambda>c a e h. Some (\<lparr>client_id = length h, tools = [JRef (length h + 1)]\<rparr>,
                                 h @ [JObject [(''name'', JStr [])],
                                      JObject [(''toolSpec'', JRef (length h))]]))\<rparr>)
           (Some [\<lparr>srv_name = ''mock-server'', srv_description = ''Mock MCP server for testing'',
                   srv_command = Some ''mock-command'', srv_args = Some [''arg1'', ''arg2''],
                   srv_env = Some [(''TEST_ENV'', ''test_value'')]\<rparr>]) initial_registry of
      (Inl e, st1) \<Rightarrow> False
    | (Inr specs, st1) \<Rightarrow>
        map (tool_name (heap st1)) (all_tools st1) = [Inr (JStr [])]
        \<and> map (tool_name (heap st1)) specs = [Inr (JStr [])])"
  by (simp add: getMcpToolSpecs_def initMcpFromAgentConfig_def hasConfigChanged_def
      initial_registry_def activate_def configSchema_safeParse_def configData_def assign_server_def for_in_def entrySchema_def inherited_properties_def example_host_def
      updateConfigCache_def generateConfigHash_def sort_by_def essentialConfig_def
      all_tools_def cloneTool_def JSON_stringify_def
      JSON_parse_def index_opt_def tool_name_def get_prop_def set_prop_def Let_def)

text \<open>
  C9, amended. Assume the registry is well formed once \<open>initMcpFromAgentConfig\<close> has
  returned, and \<open>getMcpToolSpecs\<close> returns descriptors. Then
  \<^item> the call leaves the registry as it is but for new cells at the end of the store, and
    the descriptors returned and the new cells refer to new cells only, so that they share
    no object with the registry;
  \<^item> the document of each descriptor returned is the document of the registry's descriptor
    with the prefix \<open>mcp_\<close> before a name that is a non-empty string, and the same document
    otherwise;
  \<^item> whatever the caller does to the store outside the cells of the registry (overwriting
    the cells returned, creating objects), the documents of the registry's descriptors stay
    the same, and the next call returns descriptors with the same documents as the first.
\<close>

theorem getMcpToolSpecs_isolated_copies:
  assumes nonempty: "servers \<noteq> []"
    and ok: "registry_ok (snd (initMcpFromAgentConfig host servers st))"
    and first: "getMcpToolSpecs host (Some servers) st = (Inr specs, st1)"
  shows "(\<exists>new. st1 = (snd (initMcpFromAgentConfig host servers st))
                        \<lparr>heap := heap (snd (initMcpFromAgentConfig host servers st)) @ new\<rparr>
            \<and> cells_from (length (heap (snd (initMcpFromAgentConfig host servers st)))) new
            \<and> list_all (val_from (length (heap (snd (initMcpFromAgentConfig host servers st)))))
                 specs)
         \<and> map (JSON_stringify (heap st1)) specs
             = map (\<lambda>tool. case JSON_stringify (heap st1) tool of
                              Inr (Some d) \<Rightarrow> Inr (Some (prefixed_document d))
                            | r \<Rightarrow> r) (all_tools st1)
         \<and> (\<forall>h'. take (length (heap (snd (initMcpFromAgentConfig host servers st)))) h'
                     = heap (snd (initMcpFromAgentConfig host servers st))
                   \<and> length (heap st1) \<le> length h' \<longrightarrow>
                map (JSON_stringify h') (all_tools st1)
                  = map (JSON_stringify (heap st1)) (all_tools st1)
                \<and> (\<exists>specs' st2.
                      getMcpToolSpecs host (Some servers) (st1\<lparr>heap := h'\<rparr>) = (Inr specs', st2)
                      \<and> map (JSON_stringify (heap st2)) specs'
                          = map (JSON_stringify (heap st1)) specs))"
proof -
  define st0 where "st0 = snd (initMcpFromAgentConfig host servers st)"
  define h0 where "h0 = heap st0"
  obtain r where init0: "initMcpFromAgentConfig host servers st = (r, st0)"
    unfolding st0_def by (cases "initMcpFromAgentConfig host servers st") simp
  from first nonempty init0 have r: "r = Inr ()"
    by (auto simp: getMcpToolSpecs_def split: sum.splits)
  with init0 have init: "initMcpFromAgentConfig host servers st = (Inr (), st0)"
    by simp
  from first nonempty init obtain h1 where
    ct: "cloneTools h0 (all_tools st0) = Inr (specs, h1)" and st1: "st1 = st0\<lparr>heap := h1\<rparr>"
    unfolding h0_def by (auto simp: getMcpToolSpecs_def split: sum.splits prod.splits)
  have closed: "cells_below (length h0) (take (length h0) h0)"
    and below: "list_all (val_below (length h0)) (all_tools st0)"
    using ok unfolding st0_def [symmetric] h0_def registry_ok_def heap_closed_def by simp_all
  from cloneTools_analysis [OF order_refl closed below ct]
  obtain ds new where ok_ds: "list_all (\<lambda>d. clone_error d = None) ds"
    and bl: "build_list (map prefixed_document ds) (length h0) = (specs, new)"
    and h1: "h1 = h0 @ new"
    and docs: "\<forall>H. take (length h0) H = take (length h0) h0 \<and> length h1 \<le> length H \<longrightarrow>
                  map (JSON_stringify H) (all_tools st0) = map (\<lambda>d. Inr (Some d)) ds"
    by blast
  have tools1: "all_tools st1 = all_tools st0"
    by (simp add: st1 all_tools_def)
  have heap1: "heap st1 = h1"
    by (simp add: st1)
  have docs1: "map (JSON_stringify h1) (all_tools st0) = map (\<lambda>d. Inr (Some d)) ds"
    using docs h1 by simp
  have out1: "map (JSON_stringify h1) specs = map (\<lambda>d. Inr (Some (prefixed_document d))) ds"
    using built_documents [OF bl, of "[]"] h1 by (simp add: comp_def)
  have part1: "\<exists>new. st1 = st0\<lparr>heap := h0 @ new\<rparr> \<and> cells_from (length h0) new
                 \<and> list_all (val_from (length h0)) specs"
    using build_list_bounds [OF bl] st1 h1 by blast
  have part2: "map (JSON_stringify (heap st1)) specs
             = map (\<lambda>tool. case JSON_stringify (heap st1) tool of
                              Inr (Some d) \<Rightarrow> Inr (Some (prefixed_document d))
                            | r \<Rightarrow> r) (all_tools st1)"
    unfolding heap1 tools1 out1 using map_case_documents [OF docs1] by simp
  have part3: "\<forall>h'. take (length h0) h' = h0 \<and> length (heap st1) \<le> length h' \<longrightarrow>
                map (JSON_stringify h') (all_tools st1)
                  = map (JSON_stringify (heap st1)) (all_tools st1)
                \<and> (\<exists>specs' st2.
                      getMcpToolSpecs host (Some servers) (st1\<lparr>heap := h'\<rparr>) = (Inr specs', st2)
                      \<and> map (JSON_stringify (heap st2)) specs'
                          = map (JSON_stringify (heap st1)) specs)"
  proof (intro allI impI)
    fix h' assume h': "take (length h0) h' = h0 \<and> length (heap st1) \<le> length h'"
    then have tk: "take (length h0) h' = take (length h0) h0" and le: "length h1 \<le> length h'"
      using heap1 by simp_all
    have m: "length h0 \<le> length h'"
      using le h1 by simp
    have docs': "map (JSON_stringify h') (all_tools st0) = map (\<lambda>d. Inr (Some d)) ds"
      using docs tk le by blast
    have from_h': "\<forall>H'. take (length h0) H' = take (length h0) h' \<and> length h' \<le> length H' \<longrightarrow>
              map (JSON_stringify H') (all_tools st0) = map (\<lambda>d. Inr (Some d)) ds"
    proof (intro allI impI)
      fix H' assume "take (length h0) H' = take (length h0) h' \<and> length h' \<le> length H'"
      then have "take (length h0) H' = take (length h0) h0 \<and> length h1 \<le> length H'"
        using tk le by simp
      with docs show "map (JSON_stringify H') (all_tools st0) = map (\<lambda>d. Inr (Some d)) ds"
        by blast
    qed
    obtain specs' new' where bl': "build_list (map prefixed_document ds) (length h') = (specs', new')"
      by (cases "build_list (map prefixed_document ds) (length h')")
    have ct': "cloneTools h' (all_tools st0) = Inr (specs', h' @ new')"
      using cloneTools_from_documents [OF from_h' ok_ds m] bl' by simp
    have nochange: "hasConfigChanged host (st1\<lparr>heap := h'\<rparr>) servers = Inr False"
      using hasConfigChanged_after_init [OF init] by (simp add: st1)
    have second: "getMcpToolSpecs host (Some servers) (st1\<lparr>heap := h'\<rparr>)
                    = (Inr specs', st1\<lparr>heap := h' @ new'\<rparr>)"
      using nonempty nochange ct' tools1
      by (simp add: getMcpToolSpecs_def initMcpFromAgentConfig_def all_tools_def st1)
    have out2: "map (JSON_stringify (h' @ new')) specs'
                  = map (\<lambda>d. Inr (Some (prefixed_document d))) ds"
      using built_documents [OF bl', of "[]"] by (simp add: comp_def)
    have "map (JSON_stringify (heap (st1\<lparr>heap := h' @ new'\<rparr>))) specs'
            = map (JSON_stringify (heap st1)) specs"
      using out2 out1 heap1 by simp
    with second have "\<exists>specs' st2.
                      getMcpToolSpecs host (Some servers) (st1\<lparr>heap := h'\<rparr>) = (Inr specs', st2)
                      \<and> map (JSON_stringify (heap st2)) specs'
                          = map (JSON_stringify (heap st1)) specs"
      by blast
    moreover have "map (JSON_stringify h') (all_tools st1)
                  = map (JSON_stringify (heap st1)) (all_tools st1)"
      unfolding tools1 heap1 docs' docs1 ..
    ultimately show "map (JSON_stringify h') (all_tools st1)
                  = map (JSON_stringify (heap st1)) (all_tools st1)
                \<and> (\<exists>specs' st2.
                      getMcpToolSpecs host (Some servers) (st1\<lparr>heap := h'\<rparr>) = (Inr specs', st2)
                      \<and> map (JSON_stringify (heap st2)) specs'
                          = map (JSON_stringify (heap st1)) specs)"
      by blast
  qed
  show ?thesis
    using part1 part2 part3 unfolding st0_def [symmetric] h0_def [symmetric] by blast
qed

theorem getMcpToolSpecs_isolated_copies_witness:
  "registry_ok (snd (initMcpFromAgentConfig example_host [\<lparr>srv_name = ''mock-server'', srv_description = ''Mock MCP server for testing'',
        srv_command = Some ''mock-command'', srv_args = Some [''arg1'', ''arg2''],
        srv_env = Some [(''TEST_ENV'', ''test_value'')]\<rparr>] initial_registry))
   \<and> (case getMcpToolSpecs example_host (Some [\<lparr>srv_name = ''mock-server'', srv_description = ''Mock MCP server for testing'',
        srv_command = Some ''mock-command'', srv_args = Some [''arg1'', ''arg2''],
        srv_env = Some [(''TEST_ENV'', ''test_value'')]\<rparr>]) initial_registry of
         (Inl e, st1) \<Rightarrow> False
       | (Inr specs, st1) \<Rightarrow>
           specs = [JRef 7]
           \<and> map (tool_name (heap st1)) (all_tools st1) = [Inr (JStr ''mockTool'')]
           \<and> map (tool_name (heap st1)) specs = [Inr (JStr ''mcp_mockTool'')]
           \<and> (case getMcpToolSpecs example_host (Some [\<lparr>srv_name = ''mock-server'', srv_description = ''Mock MCP server for testing'',
        srv_command = Some ''mock-command'', srv_args = Some [''arg1'', ''arg2''],
        srv_env = Some [(''TEST_ENV'', ''test_value'')]\<rparr>])
                     (st1\<lparr>heap := (heap st1)[6 := JObject [(''name'', JStr ''hacked'')]]
                                      @ [JArray [JRef 7]]\<rparr>) of
                 (Inl e, st2) \<Rightarrow> False
               | (Inr specs', st2) \<Rightarrow>
                   map (JSON_stringify (heap st2)) specs' = map (JSON_stringify (heap st1)) specs
                   \<and> map (tool_name (heap st2)) (all_tools st2) = [Inr (JStr ''mockTool'')]))"
proof -
  let ?mock = "\<lparr>srv_name = ''mock-server'', srv_description = ''Mock MCP server for testing'',
        srv_command = Some ''mock-command'', srv_args = Some [''arg1'', ''arg2''],
        srv_env = Some [(''TEST_ENV'', ''test_value'')]\<rparr>"
  let ?st0 = "snd (initMcpFromAgentConfig example_host [?mock] initial_registry)"
  let ?st1 = "\<lparr>clients = [(''mock-server'', \<lparr>client_id = 0, tools = [JRef 3]\<rparr>)],
       lastMcpServerConfigHash =
         Some (''[{'' @ [CHR 0x22] @ ''name'' @ [CHR 0x22] @ '':'' @ [CHR 0x22] @ ''mock-server''
               @ [CHR 0x22] @ '','' @ [CHR 0x22] @ ''command'' @ [CHR 0x22] @ '':'' @ [CHR 0x22]
               @ ''mock-command'' @ [CHR 0x22] @ '','' @ [CHR 0x22] @ ''args'' @ [CHR 0x22]
               @ '':['' @ [CHR 0x22] @ ''arg1'' @ [CHR 0x22] @ '','' @ [CHR 0x22] @ ''arg2''
               @ [CHR 0x22] @ ''],'' @ [CHR 0x22] @ ''env'' @ [CHR 0x22] @ '':{'' @ [CHR 0x22]
               @ ''TEST_ENV'' @ [CHR 0x22] @ '':'' @ [CHR 0x22] @ ''test_value'' @ [CHR 0x22]
               @ ''}}]''),
       lastMcpServerLength = 1, lastMcpServerNames = [''mock-server''],
       heap = [JObject [(''type'', JStr ''object'')],
               JObject [(''json'', JRef 0)],
               JObject [(''name'', JStr ''mockTool''),
                        (''description'', JStr ''A mocked tool for testing''),
                        (''inputSchema'', JRef 1)],
               JObject [(''toolSpec'', JRef 2)],
               JObject [(''type'', JStr ''object'')],
               JObject [(''json'', JRef 4)],
               JObject [(''name'', JStr ''mcp_mockTool''),
                        (''description'', JStr ''A mocked tool for testing''),
                        (''inputSchema'', JRef 5)],
               JObject [(''toolSpec'', JRef 6)]]\<rparr>"
  let ?stm = "\<lparr>clients = [(''mock-server'', \<lparr>client_id = 0, tools = [JRef 3]\<rparr>)],
       lastMcpServerConfigHash =
         Some (''[{'' @ [CHR 0x22] @ ''name'' @ [CHR 0x22] @ '':'' @ [CHR 0x22] @ ''mock-server''
               @ [CHR 0x22] @ '','' @ [CHR 0x22] @ ''command'' @ [CHR 0x22] @ '':'' @ [CHR 0x22]
               @ ''mock-command'' @ [CHR 0x22] @ '','' @ [CHR 0x22] @ ''args'' @ [CHR 0x22]
               @ '':['' @ [CHR 0x22] @ ''arg1'' @ [CHR 0x22] @ '','' @ [CHR 0x22] @ ''arg2''
               @ [CHR 0x22] @ ''],'' @ [CHR 0x22] @ ''env'' @ [CHR 0x22] @ '':{'' @ [CHR 0x22]
               @ ''TEST_ENV'' @ [CHR 0x22] @ '':'' @ [CHR 0x22] @ ''test_value'' @ [CHR 0x22]
               @ ''}}]''),
       lastMcpServerLength = 1, lastMcpServerNames = [''mock-server''],
       heap = [JObject [(''type'', JStr ''object'')],
               JObject [(''json'', JRef 0)],
               JObject [(''name'', JStr ''mockTool''),
                        (''description'', JStr ''A mocked tool for testing''),
                        (''inputSchema'', JRef 1)],
               JObject [(''toolSpec'', JRef 2)],
               JObject [(''type'', JStr ''object'')],
               JObject [(''json'', JRef 4)],
               JObject [(''name'', JStr ''hacked'')],
               JObject [(''toolSpec'', JRef 6)],
               JArray [JRef 7]]\<rparr>"
  let ?st2 = "\<lparr>clients = [(''mock-server'', \<lparr>client_id = 0, tools = [JRef 3]\<rparr>)],
       lastMcpServerConfigHash =
         Some (''[{'' @ [CHR 0x22] @ ''name'' @ [CHR 0x22] @ '':'' @ [CHR 0x22] @ ''mock-server''
               @ [CHR 0x22] @ '','' @ [CHR 0x22] @ ''command'' @ [CHR 0x22] @ '':'' @ [CHR 0x22]
               @ ''mock-command'' @ [CHR 0x22] @ '','' @ [CHR 0x22] @ ''args'' @ [CHR 0x22]
               @ '':['' @ [CHR 0x22] @ ''arg1'' @ [CHR 0x22] @ '','' @ [CHR 0x22] @ ''arg2''
               @ [CHR 0x22] @ ''],'' @ [CHR 0x22] @ ''env'' @ [CHR 0x22] @ '':{'' @ [CHR 0x22]
               @ ''TEST_ENV'' @ [CHR 0x22] @ '':'' @ [CHR 0x22] @ ''test_value'' @ [CHR 0x22]
               @ ''}}]''),
       lastMcpServerLength = 1, lastMcpServerNames = [''mock-server''],
       heap = [JObject [(''type'', JStr ''object'')],
               JObject [(''json'', JRef 0)],
               JObject [(''name'', JStr ''mockTool''),
                        (''description'', JStr ''A mocked tool for testing''),
                        (''inputSchema'', JRef 1)],
               JObject [(''toolSpec'', JRef 2)],
               JObject [(''type'', JStr ''object'')],
               JObject [(''json'', JRef 4)],
               JObject [(''name'', JStr ''hacked'')],
               JObject [(''toolSpec'', JRef 6)],
               JArray [JRef 7],
               JObject [(''type'', JStr ''object'')],
               JObject [(''json'', JRef 9)],
               JObject [(''name'', JStr ''mcp_mockTool''),
                        (''description'', JStr ''A mocked tool for testing''),
                        (''inputSchema'', JRef 10)],
               JObject [(''toolSpec'', JRef 11)]]\<rparr>"
  have ok: "registry_ok ?st0"
    by (simp add: example_init registry_ok_def heap_closed_def cells_below_def cell_values_def
        val_below_def all_tools_def)
  have first: "getMcpToolSpecs example_host (Some [?mock]) initial_registry = (Inr [JRef 7], ?st1)"
    unfolding example_specs by (simp add: example_init)
  have mutated: "?st1\<lparr>heap := (heap ?st1)[6 := JObject [(''name'', JStr ''hacked'')]]
                                      @ [JArray [JRef 7]]\<rparr> = ?stm"
    by simp
  have names1: "map (tool_name (heap ?st1)) (all_tools ?st1) = [Inr (JStr ''mockTool'')]"
    "map (tool_name (heap ?st1)) [JRef 7] = [Inr (JStr ''mcp_mockTool'')]"
    by (simp_all add: all_tools_def tool_name_def get_prop_def index_opt_def)
  have names2: "map (tool_name (heap ?st2)) (all_tools ?st2) = [Inr (JStr ''mockTool'')]"
    by (simp add: all_tools_def tool_name_def get_prop_def index_opt_def)
  have pre: "take (length (heap ?st0)) (heap ?stm) = heap ?st0
             \<and> length (heap ?st1) \<le> length (heap ?stm)"
    by (simp add: example_init)
  have upd: "?st1\<lparr>heap := heap ?stm\<rparr> = ?stm"
    by simp
  from getMcpToolSpecs_isolated_copies [OF _ ok first] pre
  obtain specs' st2 where
    second: "getMcpToolSpecs example_host (Some [?mock]) (?st1\<lparr>heap := heap ?stm\<rparr>)
               = (Inr specs', st2)"
    and same: "map (JSON_stringify (heap st2)) specs' = map (JSON_stringify (heap ?st1)) [JRef 7]"
    by blast
  from second have "specs' = [JRef 12]" and "st2 = ?st2"
    unfolding upd example_second_call by simp_all
  with same have same': "map (JSON_stringify (heap ?st2)) [JRef 12]
                           = map (JSON_stringify (heap ?st1)) [JRef 7]"
    by simp
  show ?thesis
    unfolding first prod.case sum.case mutated example_second_call
    using ok names1 names2 same' by blast
qed

end
